theory Spec2Isabelle
  imports Complex_Main "HOL-Library.Word"
begin

section \<open>Scene manager (SceneManager.cpp)\<close>

subsection \<open>Data\<close>

text \<open>
  \<open>GLuint\<close> is OpenGL's unsigned 32-bit name type. A C++ \<open>float\<close> or \<open>double\<close> is
  modelled by the real number it holds. The registry code only copies floats, and the
  matrix code is read in exact arithmetic; the brick breaker's movement code rounds every
  result to binary32, as defined in its section.
\<close>

type_synonym GLuint = "32 word"
type_synonym float = real
type_synonym double = real
type_synonym vec3 = "float \<times> float \<times> float"
type_synonym vec4 = "float \<times> float \<times> float \<times> float"
type_synonym mat4 = "vec4 \<times> vec4 \<times> vec4 \<times> vec4"

text \<open>
  The two ways in which the C++ leaves defined behaviour: an index outside a fixed-size
  array, and a call through a null \<open>m_pShaderManager\<close>.
\<close>

datatype error = ArrayOutOfBounds | NullPointer

text \<open>
  Modelled from the spec: the declarations of SceneManager.h are not part of the sources;
  the types below are read off the way SceneManager.cpp uses them.
  \<open>TEXTURE_INFO\<close> is the element type of \<open>m_textureIDs\<close> (a tag and a handle; the handle
  is a \<open>GLuint\<close>, since \<open>glGenTextures\<close> writes through \<open>&m_textureIDs[i].ID\<close>), and
  \<open>OBJECT_MATERIAL\<close> is the element type of \<open>m_objectMaterials\<close>. The material's tag
  field is called \<open>mtag\<close> here, to keep it apart from the texture's \<open>tag\<close>.
\<close>

record TEXTURE_INFO =
  tag :: string
  ID :: GLuint

record OBJECT_MATERIAL =
  diffuseColor :: vec3
  specularColor :: vec3
  shininess :: float
  mtag :: string

text \<open>
  The shader manager is an external collaborator that accepts named uniform writes. It is
  modelled as the sequence of writes it has received, oldest first.
\<close>

datatype uniform =
  IntValue int
  | BoolValue bool
  | FloatValue float
  | Vec2Value "float \<times> float"
  | Vec3Value vec3
  | Vec4Value vec4
  | Mat4Value mat4
  | Sampler2DValue int

type_synonym ShaderManager = "(string \<times> uniform) list"

definition setIntValue :: "string \<Rightarrow> int \<Rightarrow> ShaderManager \<Rightarrow> ShaderManager" where
  "setIntValue name v sh = sh @ [(name, IntValue v)]"

definition setFloatValue :: "string \<Rightarrow> float \<Rightarrow> ShaderManager \<Rightarrow> ShaderManager" where
  "setFloatValue name v sh = sh @ [(name, FloatValue v)]"

definition setVec3Value :: "string \<Rightarrow> vec3 \<Rightarrow> ShaderManager \<Rightarrow> ShaderManager" where
  "setVec3Value name v sh = sh @ [(name, Vec3Value v)]"

definition setVec4Value :: "string \<Rightarrow> vec4 \<Rightarrow> ShaderManager \<Rightarrow> ShaderManager" where
  "setVec4Value name v sh = sh @ [(name, Vec4Value v)]"

definition setMat4Value :: "string \<Rightarrow> mat4 \<Rightarrow> ShaderManager \<Rightarrow> ShaderManager" where
  "setMat4Value name v sh = sh @ [(name, Mat4Value v)]"

definition setSampler2DValue :: "string \<Rightarrow> int \<Rightarrow> ShaderManager \<Rightarrow> ShaderManager" where
  "setSampler2DValue name v sh = sh @ [(name, Sampler2DValue v)]"

text \<open>
  The members of the class. \<open>m_textureIDs\<close> is the fixed array of 16 slots (the constructor
  initialises exactly 16), \<open>m_pShaderManager\<close> is a pointer that may be null.
\<close>

record SceneManager =
  m_pShaderManager :: "ShaderManager option"
  m_textureIDs :: "TEXTURE_INFO list"
  m_loadedTextures :: int
  m_objectMaterials :: "OBJECT_MATERIAL list"

definition SceneManager_ctor :: "ShaderManager option \<Rightarrow> SceneManager" where
  "SceneManager_ctor pShaderManager =
     \<lparr>m_pShaderManager = pShaderManager,
      m_textureIDs = replicate 16 \<lparr>tag = ''/0'', ID = - 1\<rparr>,
      m_loadedTextures = 0,
      m_objectMaterials = []\<rparr>"

subsection \<open>Array access\<close>

text \<open>
  A C++ array has no bounds check: an index outside \<open>0 .. length - 1\<close> is undefined
  behaviour, which the model reports as \<open>ArrayOutOfBounds\<close>.
\<close>

definition array_get :: "'a list \<Rightarrow> int \<Rightarrow> error + 'a" where
  "array_get a i =
     (if 0 \<le> i \<and> i < int (length a) then Inr (a ! nat i) else Inl ArrayOutOfBounds)"

definition array_set :: "'a list \<Rightarrow> int \<Rightarrow> ('a \<Rightarrow> 'a) \<Rightarrow> error + 'a list" where
  "array_set a i f =
     (if 0 \<le> i \<and> i < int (length a) then Inr (a[nat i := f (a ! nat i)])
      else Inl ArrayOutOfBounds)"

subsection \<open>Texture table\<close>

text \<open>
  What \<open>stbi_load\<close> hands back: a null pointer, or pixel data with its width, height and
  channel count.
\<close>

datatype stbi_image = NoImage | Image int int int

text \<open>
  \<open>CreateGLTexture\<close>. The image decoder and OpenGL are external: the arguments \<open>img\<close>
  and \<open>textureID\<close> are the result of \<open>stbi_load\<close> and the name that \<open>glGenTextures\<close>
  writes into the local \<open>textureID\<close>. The result is the returned flag with the updated
  object.
\<close>

definition CreateGLTexture ::
  "stbi_image \<Rightarrow> GLuint \<Rightarrow> string \<Rightarrow> SceneManager \<Rightarrow> error + (bool \<times> SceneManager)" where
  "CreateGLTexture img textureID tg s =
     (case img of
        NoImage \<Rightarrow> Inr (False, s)
      | Image width height colorChannels \<Rightarrow>
          if colorChannels = 3 \<or> colorChannels = 4 then
            (case array_set (m_textureIDs s) (m_loadedTextures s)
                    (\<lambda>t. t\<lparr>ID := textureID, tag := tg\<rparr>) of
               Inl e \<Rightarrow> Inl e
             | Inr a \<Rightarrow>
                 Inr (True, s\<lparr>m_textureIDs := a, m_loadedTextures := m_loadedTextures s + 1\<rparr>))
          else Inr (False, s))"

text \<open>
  A run of registrations whose return values are ignored, as \<open>LoadSceneTextures\<close> makes
  them: each element is the decoded image, the generated name and the tag of one call.
\<close>

fun CreateGLTextures ::
  "(stbi_image \<times> GLuint \<times> string) list \<Rightarrow> SceneManager \<Rightarrow> error + SceneManager" where
  "CreateGLTextures [] s = Inr s"
| "CreateGLTextures ((img, textureID, tg) # rest) s =
     (case CreateGLTexture img textureID tg s of
        Inl e \<Rightarrow> Inl e
      | Inr (bReturn, s') \<Rightarrow> CreateGLTextures rest s')"

text \<open>
  \<open>DestroyGLTextures\<close> calls \<open>glGenTextures(1, &m_textureIDs[i].ID)\<close> for every loaded
  slot, and \<open>glGenTextures\<close> stores a newly generated name through its pointer argument.
  \<open>gen i\<close> is the name generated in iteration \<open>i\<close>.
\<close>

function DestroyGLTextures_loop ::
  "(int \<Rightarrow> GLuint) \<Rightarrow> int \<Rightarrow> SceneManager \<Rightarrow> error + SceneManager" where
  "DestroyGLTextures_loop gen i s =
     (if i < m_loadedTextures s then
        (case array_set (m_textureIDs s) i (\<lambda>t. t\<lparr>ID := gen i\<rparr>) of
           Inl e \<Rightarrow> Inl e
         | Inr a \<Rightarrow> DestroyGLTextures_loop gen (i + 1) (s\<lparr>m_textureIDs := a\<rparr>))
      else Inr s)"
  by pat_completeness auto
termination
  by (relation "measure (\<lambda>(gen, i, s). nat (m_loadedTextures s - i))") auto

declare DestroyGLTextures_loop.simps [simp del]

definition DestroyGLTextures :: "(int \<Rightarrow> GLuint) \<Rightarrow> SceneManager \<Rightarrow> error + SceneManager" where
  "DestroyGLTextures gen s = DestroyGLTextures_loop gen 0 s"

text \<open>
  \<open>FindTextureID\<close> and \<open>FindTextureSlot\<close>: the \<open>while\<close> loop scans from \<open>index\<close> and stops
  at the first slot whose tag compares equal; \<open>- 1\<close> is the initial value of the result.
  The handle is returned as an \<open>int\<close>, the signed reading of the \<open>GLuint\<close>.
\<close>

function FindTextureID_loop :: "string \<Rightarrow> SceneManager \<Rightarrow> int \<Rightarrow> error + int" where
  "FindTextureID_loop tg s index =
     (if index < m_loadedTextures s then
        (case array_get (m_textureIDs s) index of
           Inl e \<Rightarrow> Inl e
         | Inr t \<Rightarrow>
             if tag t = tg then Inr (sint (ID t)) else FindTextureID_loop tg s (index + 1))
      else Inr (- 1))"
  by pat_completeness auto
termination
  by (relation "measure (\<lambda>(tg, s, index). nat (m_loadedTextures s - index))") auto

declare FindTextureID_loop.simps [simp del]

definition FindTextureID :: "string \<Rightarrow> SceneManager \<Rightarrow> error + int" where
  "FindTextureID tg s = FindTextureID_loop tg s 0"

function FindTextureSlot_loop :: "string \<Rightarrow> SceneManager \<Rightarrow> int \<Rightarrow> error + int" where
  "FindTextureSlot_loop tg s index =
     (if index < m_loadedTextures s then
        (case array_get (m_textureIDs s) index of
           Inl e \<Rightarrow> Inl e
         | Inr t \<Rightarrow> if tag t = tg then Inr index else FindTextureSlot_loop tg s (index + 1))
      else Inr (- 1))"
  by pat_completeness auto
termination
  by (relation "measure (\<lambda>(tg, s, index). nat (m_loadedTextures s - index))") auto

declare FindTextureSlot_loop.simps [simp del]

definition FindTextureSlot :: "string \<Rightarrow> SceneManager \<Rightarrow> error + int" where
  "FindTextureSlot tg s = FindTextureSlot_loop tg s 0"

subsection \<open>Material registry\<close>

text \<open>
  \<open>FindMaterial\<close>. The loop compares the \<open>int\<close> index with the vector's unsigned size, so
  only a non-negative index below the size enters the body; on a match it copies three
  fields into the caller's \<open>material\<close> (the tag is not copied). The function returns
  \<open>false\<close> for an empty vector and the constant \<open>true\<close> after the loop.
\<close>

function FindMaterial_loop ::
  "string \<Rightarrow> OBJECT_MATERIAL list \<Rightarrow> int \<Rightarrow> OBJECT_MATERIAL \<Rightarrow> OBJECT_MATERIAL" where
  "FindMaterial_loop tg ms index material =
     (if 0 \<le> index \<and> index < int (length ms) then
        (if mtag (ms ! nat index) = tg then
           material\<lparr>diffuseColor := diffuseColor (ms ! nat index),
                    specularColor := specularColor (ms ! nat index),
                    shininess := shininess (ms ! nat index)\<rparr>
         else FindMaterial_loop tg ms (index + 1) material)
      else material)"
  by pat_completeness auto
termination
  by (relation "measure (\<lambda>(tg, ms, index, material). nat (int (length ms) - index))") auto

declare FindMaterial_loop.simps [simp del]

definition FindMaterial ::
  "string \<Rightarrow> OBJECT_MATERIAL \<Rightarrow> SceneManager \<Rightarrow> bool \<times> OBJECT_MATERIAL" where
  "FindMaterial tg material s =
     (if length (m_objectMaterials s) = 0 then (False, material)
      else (True, FindMaterial_loop tg (m_objectMaterials s) 0 material))"

text \<open>
  \<open>SetShaderMaterial\<close> declares a local \<open>OBJECT_MATERIAL material\<close> without initialising
  it; the argument \<open>material\<close> is whatever that local holds. The three uniform writes go
  through \<open>m_pShaderManager\<close> with no null check.
\<close>

definition SetShaderMaterial ::
  "string \<Rightarrow> OBJECT_MATERIAL \<Rightarrow> SceneManager \<Rightarrow> error + SceneManager" where
  "SetShaderMaterial materialTag material s =
     (if length (m_objectMaterials s) > 0 then
        (case FindMaterial materialTag material s of
           (bReturn, material') \<Rightarrow>
             if bReturn then
               (case m_pShaderManager s of
                  None \<Rightarrow> Inl NullPointer
                | Some sh \<Rightarrow>
                    Inr (s\<lparr>m_pShaderManager := Some
                      (setFloatValue ''material.shininess'' (shininess material')
                        (setVec3Value ''material.specularColor'' (specularColor material')
                          (setVec3Value ''material.diffuseColor'' (diffuseColor material')
                            sh)))\<rparr>))
             else Inr s)
      else Inr s)"

subsection \<open>Model matrix\<close>

text \<open>
  The GLM functions that \<open>SetTransformations\<close> calls, in exact arithmetic. A \<open>mat4\<close> is
  four columns. \<open>glm_rotate\<close> is \<open>glm::rotate(angle, axis)\<close> of \<open>glm/gtx/transform.hpp\<close>:
  the axis is normalised and the rotation built from the cosine and sine of the angle.
\<close>

definition glm_radians :: "float \<Rightarrow> float" where
  "glm_radians degrees = degrees * (pi / 180)"

definition glm_normalize :: "vec3 \<Rightarrow> vec3" where
  "glm_normalize v =
     (case v of (vx, vy, vz) \<Rightarrow>
        (let n = sqrt (vx * vx + vy * vy + vz * vz) in (vx / n, vy / n, vz / n)))"

definition glm_scale :: "vec3 \<Rightarrow> mat4" where
  "glm_scale v =
     (case v of (vx, vy, vz) \<Rightarrow>
        ((vx, 0, 0, 0), (0, vy, 0, 0), (0, 0, vz, 0), (0, 0, 0, 1)))"

definition glm_translate :: "vec3 \<Rightarrow> mat4" where
  "glm_translate v =
     (case v of (vx, vy, vz) \<Rightarrow>
        ((1, 0, 0, 0), (0, 1, 0, 0), (0, 0, 1, 0), (vx, vy, vz, 1)))"

definition glm_rotate :: "float \<Rightarrow> vec3 \<Rightarrow> mat4" where
  "glm_rotate angle v =
     (let c = cos angle; s = sin angle in
      case glm_normalize v of (ax, ay, az) \<Rightarrow>
        (let tx = (1 - c) * ax; ty = (1 - c) * ay; tz = (1 - c) * az in
         ((c + tx * ax, tx * ay + s * az, tx * az - s * ay, 0),
          (ty * ax - s * az, c + ty * ay, ty * az + s * ax, 0),
          (tz * ax + s * ay, tz * ay - s * ax, c + tz * az, 0),
          (0, 0, 0, 1))))"

text \<open>\<open>mat4 * vec4\<close> and \<open>mat4 * mat4\<close>: a linear combination of the columns.\<close>

definition mat4_vec4 :: "mat4 \<Rightarrow> vec4 \<Rightarrow> vec4" where
  "mat4_vec4 m v =
     (case m of ((a0, a1, a2, a3), (b0, b1, b2, b3), (c0, c1, c2, c3), (d0, d1, d2, d3)) \<Rightarrow>
      case v of (vx, vy, vz, vw) \<Rightarrow>
        (a0 * vx + b0 * vy + c0 * vz + d0 * vw,
         a1 * vx + b1 * vy + c1 * vz + d1 * vw,
         a2 * vx + b2 * vy + c2 * vz + d2 * vw,
         a3 * vx + b3 * vy + c3 * vz + d3 * vw))"

definition mat4_mul :: "mat4 \<Rightarrow> mat4 \<Rightarrow> mat4" where
  "mat4_mul m1 m2 =
     (case m2 of (col0, col1, col2, col3) \<Rightarrow>
        (mat4_vec4 m1 col0, mat4_vec4 m1 col1, mat4_vec4 m1 col2, mat4_vec4 m1 col3))"

text \<open>
  \<open>SetTransformations\<close>: \<open>modelView\<close> is the value of the local of that name, and the
  function pushes it under the uniform name \<open>model\<close> unless the shader manager is null.
\<close>

definition modelView :: "vec3 \<Rightarrow> float \<Rightarrow> float \<Rightarrow> float \<Rightarrow> vec3 \<Rightarrow> mat4" where
  "modelView scaleXYZ XrotationDegrees YrotationDegrees ZrotationDegrees positionXYZ =
     (let scale = glm_scale scaleXYZ;
          rotationX = glm_rotate (glm_radians XrotationDegrees) (1, 0, 0);
          rotationY = glm_rotate (glm_radians YrotationDegrees) (0, 1, 0);
          rotationZ = glm_rotate (glm_radians ZrotationDegrees) (0, 0, 1);
          translation = glm_translate positionXYZ
      in mat4_mul (mat4_mul (mat4_mul (mat4_mul translation rotationZ) rotationY) rotationX)
           scale)"

definition SetTransformations ::
  "vec3 \<Rightarrow> float \<Rightarrow> float \<Rightarrow> float \<Rightarrow> vec3 \<Rightarrow> SceneManager \<Rightarrow> SceneManager" where
  "SetTransformations scaleXYZ XrotationDegrees YrotationDegrees ZrotationDegrees positionXYZ s =
     (case m_pShaderManager s of
        None \<Rightarrow> s
      | Some sh \<Rightarrow>
          s\<lparr>m_pShaderManager := Some
            (setMat4Value ''model''
               (modelView scaleXYZ XrotationDegrees YrotationDegrees ZrotationDegrees
                  positionXYZ) sh)\<rparr>)"

section \<open>Brick breaker (8-2\_Assignment/Source/MainCode.cpp)\<close>

subsection \<open>Binary floating point\<close>

text \<open>
  The circle's coordinates are IEEE binary32 numbers, and every sum or difference of two
  floats is rounded to binary32 again. \<open>round_binary p qmin v\<close> is the number nearest to
  \<open>v\<close> among the multiples of \<open>2 powi q\<close>, where \<open>q\<close> is the exponent of the last of
  \<open>p\<close> significant bits of \<open>v\<close> and at least \<open>qmin\<close> (the subnormal range); a tie goes to
  the even multiple. Infinities and NaN are not represented: the sums and differences taken
  here have an operand of size at most 1 and cannot overflow.
\<close>

definition round_even :: "real \<Rightarrow> int" where
  "round_even t =
     (let f = \<lfloor>t\<rfloor>; d = t - of_int f in
      if d < 1 / 2 then f else if 1 / 2 < d then f + 1 else if even f then f else f + 1)"

definition quantum :: "nat \<Rightarrow> int \<Rightarrow> real \<Rightarrow> int" where
  "quantum p qmin v = max (\<lfloor>log 2 \<bar>v\<bar>\<rfloor> - (int p - 1)) qmin"

definition round_binary :: "nat \<Rightarrow> int \<Rightarrow> real \<Rightarrow> real" where
  "round_binary p qmin v =
     (if v = 0 then 0
      else of_int (round_even (v / 2 powi quantum p qmin v)) * 2 powi quantum p qmin v)"

definition float32 :: "real \<Rightarrow> float" where
  "float32 v = round_binary 24 (- 149) v"

definition float64 :: "real \<Rightarrow> double" where
  "float64 v = round_binary 53 (- 1074) v"

subsection \<open>Bricks and circles\<close>

datatype BRICKTYPE = REFLECTIVE | DESTRUCTABLE

datatype ONOFF = ON | OFF

text \<open>
  Both classes have members called \<open>x\<close>, \<open>y\<close>, \<open>health\<close> and \<open>onoff\<close>; the unqualified
  names are the circle's, the brick's are written \<open>Brick.x\<close> and so on. \<open>health\<close> is a C++
  \<open>int\<close>; the code only decrements it while it is positive, so it never wraps.
\<close>

record Brick =
  red :: float
  green :: float
  blue :: float
  x :: float
  y :: float
  width :: float
  health :: int
  brick_type :: BRICKTYPE
  onoff :: ONOFF

record Circle =
  red :: float
  green :: float
  blue :: float
  radius :: float
  x :: float
  y :: float
  speed :: float
  health :: int
  direction :: int
  onoff :: ONOFF

definition Brick_ctor ::
  "BRICKTYPE \<Rightarrow> float \<Rightarrow> float \<Rightarrow> float \<Rightarrow> float \<Rightarrow> float \<Rightarrow> float \<Rightarrow> Brick" where
  "Brick_ctor bt xx yy ww rr gg bb =
     \<lparr>Brick.red = rr, Brick.green = gg, Brick.blue = bb,
      Brick.x = xx, Brick.y = yy, width = ww,
      Brick.health = 10, brick_type = bt, Brick.onoff = ON\<rparr>"

text \<open>
  The circle's constructor takes \<open>xx\<close>, \<open>yy\<close> and \<open>rr\<close> as doubles and stores them in
  floats, which rounds them (\<open>rr\<close> is then overwritten by \<open>rad\<close>); \<open>speed\<close> is initialised
  from the double literal \<open>0.01\<close>.
\<close>

definition Circle_ctor ::
  "double \<Rightarrow> double \<Rightarrow> double \<Rightarrow> int \<Rightarrow> float \<Rightarrow> float \<Rightarrow> float \<Rightarrow> float \<Rightarrow> Circle" where
  "Circle_ctor xx yy rr dir rad r g b =
     \<lparr>red = r, green = g, blue = b, radius = rad, x = float32 xx, y = float32 yy,
      speed = float32 (float64 0.01), health = 2, direction = dir, onoff = ON\<rparr>"

text \<open>\<open>rand\<close> is the value that the C library's \<open>rand()\<close> returns, which is never negative.\<close>

definition GetRandomDirection :: "nat \<Rightarrow> int" where
  "GetRandomDirection rand = (int rand mod 8) + 1"

text \<open>
  The hit test that both branches of \<open>CheckCollision\<close> make. It is read in exact
  arithmetic, as is the jump of the circle: what is proved of \<open>CheckCollision\<close> concerns
  the brick and holds whatever this test returns.
\<close>

definition hits :: "Circle \<Rightarrow> Brick \<Rightarrow> bool" where
  "hits c brk =
     ((x c > Brick.x brk - width brk \<and> x c \<le> Brick.x brk + width brk)
      \<and> (y c > Brick.y brk - width brk \<and> y c \<le> Brick.y brk + width brk))"

definition CheckCollision :: "nat \<Rightarrow> Circle \<Rightarrow> Brick \<Rightarrow> Circle \<times> Brick" where
  "CheckCollision rand c brk =
     (if brick_type brk = REFLECTIVE then
        (if hits c brk then
           (c\<lparr>direction := GetRandomDirection rand, x := x c + 0.03, y := y c + 0.04\<rparr>, brk)
         else (c, brk))
      else if brick_type brk = DESTRUCTABLE \<and> Brick.onoff brk = ON \<and> Brick.health brk > 0
              \<and> onoff c = ON then
        (if hits c brk then
           (let brk1 = brk\<lparr>Brick.health := Brick.health brk - 1\<rparr>;
                brk2 = (if Brick.health brk1 \<le> 0 then brk1\<lparr>Brick.onoff := OFF\<rparr> else brk1)
            in (c\<lparr>direction := GetRandomDirection rand, x := x c + 0.03, y := y c + 0.04\<rparr>,
                brk2))
         else (c, brk))
      else (c, brk))"

text \<open>
  \<open>MoveOneStep\<close> is four \<open>if\<close> statements in a row, each reading the direction that the
  earlier ones may have replaced. \<open>r1\<close> to \<open>r4\<close> are the values of \<open>rand()\<close> at the four
  places that ask for a new direction. The edge \<open>-1 + radius\<close> or \<open>1 - radius\<close> and the
  new coordinate are float expressions, each rounded to binary32.
\<close>

definition MoveUp :: "nat \<Rightarrow> Circle \<Rightarrow> Circle" where
  "MoveUp r c =
     (if direction c = 1 \<or> direction c = 5 \<or> direction c = 6 then
        (if y c > float32 (- 1 + radius c) then c\<lparr>y := float32 (y c - speed c)\<rparr>
         else c\<lparr>direction := GetRandomDirection r\<rparr>)
      else c)"

definition MoveRight :: "nat \<Rightarrow> Circle \<Rightarrow> Circle" where
  "MoveRight r c =
     (if direction c = 2 \<or> direction c = 5 \<or> direction c = 7 then
        (if x c < float32 (1 - radius c) then c\<lparr>x := float32 (x c + speed c)\<rparr>
         else c\<lparr>direction := GetRandomDirection r\<rparr>)
      else c)"

definition MoveDown :: "nat \<Rightarrow> Circle \<Rightarrow> Circle" where
  "MoveDown r c =
     (if direction c = 3 \<or> direction c = 7 \<or> direction c = 8 then
        (if y c < float32 (1 - radius c) then c\<lparr>y := float32 (y c + speed c)\<rparr>
         else c\<lparr>direction := GetRandomDirection r\<rparr>)
      else c)"

definition MoveLeft :: "nat \<Rightarrow> Circle \<Rightarrow> Circle" where
  "MoveLeft r c =
     (if direction c = 4 \<or> direction c = 6 \<or> direction c = 8 then
        (if x c > float32 (- 1 + radius c) then c\<lparr>x := float32 (x c - speed c)\<rparr>
         else c\<lparr>direction := GetRandomDirection r\<rparr>)
      else c)"

definition MoveOneStep :: "nat \<Rightarrow> nat \<Rightarrow> nat \<Rightarrow> nat \<Rightarrow> Circle \<Rightarrow> Circle" where
  "MoveOneStep r1 r2 r3 r4 c = MoveLeft r4 (MoveDown r3 (MoveRight r2 (MoveUp r1 c)))"

section \<open>Properties of the texture table\<close>

subsection \<open>Registration\<close>

lemma TEXTURE_INFO_overwrite: "t\<lparr>ID := h, tag := g\<rparr> = \<lparr>tag = g, ID = h\<rparr>"
  by (cases t) simp

lemma CreateGLTexture_stores:
  assumes "c = 3 \<or> c = 4" and "m_loadedTextures s = int n" and "n < length (m_textureIDs s)"
  shows "CreateGLTexture (Image w h c) textureID tg s =
           Inr (True, s\<lparr>m_textureIDs := (m_textureIDs s)[n := \<lparr>tag = tg, ID = textureID\<rparr>],
                        m_loadedTextures := int (Suc n)\<rparr>)"
  using assms by (auto simp: CreateGLTexture_def array_set_def TEXTURE_INFO_overwrite add.commute)

lemma CreateGLTexture_overflow:
  assumes "c = 3 \<or> c = 4" and "int (length (m_textureIDs s)) \<le> m_loadedTextures s"
  shows "CreateGLTexture (Image w h c) textureID tg s = Inl ArrayOutOfBounds"
  using assms by (auto simp: CreateGLTexture_def array_set_def)


lemma CreateGLTextures_table:
  assumes "\<forall>r \<in> set regs. \<exists>w h c. fst r = Image w h c \<and> (c = 3 \<or> c = 4)"
    and "m_loadedTextures s = int n"
    and "n + length regs \<le> length (m_textureIDs s)"
  shows "\<exists>s'. CreateGLTextures regs s = Inr s'
            \<and> m_loadedTextures s' = int (n + length regs)
            \<and> length (m_textureIDs s') = length (m_textureIDs s)
            \<and> (\<forall>i < length regs. m_textureIDs s' ! (n + i) =
                  \<lparr>tag = snd (snd (regs ! i)), ID = fst (snd (regs ! i))\<rparr>)
            \<and> (\<forall>j < n. m_textureIDs s' ! j = m_textureIDs s ! j)"
  using assms
proof (induction regs arbitrary: s n)
  case Nil
  then show ?case by simp
next
  case (Cons r regs)
  obtain img textureID tg where r: "r = (img, textureID, tg)"
    by (cases r) auto
  from Cons.prems(1) r obtain w h c where img: "img = Image w h c" and c: "c = 3 \<or> c = 4"
    by auto
  let ?s1 = "s\<lparr>m_textureIDs := (m_textureIDs s)[n := \<lparr>tag = tg, ID = textureID\<rparr>],
                m_loadedTextures := int (Suc n)\<rparr>"
  have n: "n < length (m_textureIDs s)"
    using Cons.prems(3) by simp
  have step: "CreateGLTexture img textureID tg s = Inr (True, ?s1)"
    unfolding img by (rule CreateGLTexture_stores [OF c Cons.prems(2) n])
  have "\<exists>s'. CreateGLTextures regs ?s1 = Inr s'
            \<and> m_loadedTextures s' = int (Suc n + length regs)
            \<and> length (m_textureIDs s') = length (m_textureIDs ?s1)
            \<and> (\<forall>i < length regs. m_textureIDs s' ! (Suc n + i) =
                  \<lparr>tag = snd (snd (regs ! i)), ID = fst (snd (regs ! i))\<rparr>)
            \<and> (\<forall>j < Suc n. m_textureIDs s' ! j = m_textureIDs ?s1 ! j)"
    using Cons.prems by (intro Cons.IH) auto
  then obtain s' where run: "CreateGLTextures regs ?s1 = Inr s'"
    and cnt: "m_loadedTextures s' = int (Suc n + length regs)"
    and len: "length (m_textureIDs s') = length (m_textureIDs ?s1)"
    and new: "\<forall>i < length regs. m_textureIDs s' ! (Suc n + i) =
                  \<lparr>tag = snd (snd (regs ! i)), ID = fst (snd (regs ! i))\<rparr>"
    and old: "\<forall>j < Suc n. m_textureIDs s' ! j = m_textureIDs ?s1 ! j"
    by blast
  have "CreateGLTextures (r # regs) s = Inr s'"
    using step run by (simp add: r)
  moreover have "m_loadedTextures s' = int (n + length (r # regs))"
    using cnt by simp
  moreover have "length (m_textureIDs s') = length (m_textureIDs s)"
    using len by simp
  moreover have "\<forall>i < length (r # regs). m_textureIDs s' ! (n + i) =
                  \<lparr>tag = snd (snd ((r # regs) ! i)), ID = fst (snd ((r # regs) ! i))\<rparr>"
  proof (intro allI impI)
    fix i assume i: "i < length (r # regs)"
    show "m_textureIDs s' ! (n + i) =
            \<lparr>tag = snd (snd ((r # regs) ! i)), ID = fst (snd ((r # regs) ! i))\<rparr>"
    proof (cases i)
      case 0
      then show ?thesis using old n by (simp add: r)
    next
      case (Suc k)
      then show ?thesis using new i by simp
    qed
  qed
  moreover have "\<forall>j < n. m_textureIDs s' ! j = m_textureIDs s ! j"
    using old by simp
  ultimately show ?case by blast
qed

lemma FindTexture_loops_first_match:
  assumes "i \<le> k" and "int k < m_loadedTextures s" and "k < length (m_textureIDs s)"
    and "tag (m_textureIDs s ! k) = tg"
    and "\<forall>j. i \<le> j \<and> j < k \<longrightarrow> tag (m_textureIDs s ! j) \<noteq> tg"
  shows "FindTextureSlot_loop tg s (int i) = Inr (int k)
       \<and> FindTextureID_loop tg s (int i) = Inr (sint (ID (m_textureIDs s ! k)))"
  using assms
proof (induction "k - i" arbitrary: i)
  case 0
  then have "i = k" by simp
  then show ?case
    using "0.prems"
    by (subst FindTextureSlot_loop.simps, subst FindTextureID_loop.simps) (simp add: array_get_def)
next
  case (Suc d)
  then have lt: "i < k" by simp
  have IH: "FindTextureSlot_loop tg s (int (Suc i)) = Inr (int k)
       \<and> FindTextureID_loop tg s (int (Suc i)) = Inr (sint (ID (m_textureIDs s ! k)))"
    using Suc.prems Suc.hyps(2) lt by (intro Suc.hyps(1)) auto
  have ne: "tag (m_textureIDs s ! i) \<noteq> tg"
    using Suc.prems(5) lt by simp
  show ?case
    using IH ne lt Suc.prems(2,3) 
    by (subst FindTextureSlot_loop.simps, subst FindTextureID_loop.simps)
       (simp add: array_get_def add.commute)
qed

text \<open>
  C6. When the decoder returns no image, or an image whose channel count is neither 3 nor
  4, \<open>CreateGLTexture\<close> returns \<open>false\<close> and the object it returns with is the one it
  was called on: every slot and \<open>m_loadedTextures\<close> are as before.
\<close>

theorem CreateGLTexture_failure:
  assumes "img = NoImage \<or> (\<exists>w h c. img = Image w h c \<and> c \<noteq> 3 \<and> c \<noteq> 4)"
  shows "CreateGLTexture img textureID tg s = Inr (False, s)"
  using assms by (auto simp: CreateGLTexture_def)

text \<open>C6 at a failed decode and at a one-channel image, on the freshly constructed table.\<close>

theorem CreateGLTexture_failure_witness:
  "(NoImage = NoImage \<or> (\<exists>w h c. NoImage = Image w h c \<and> c \<noteq> 3 \<and> c \<noteq> 4))
   \<and> CreateGLTexture NoImage 7 ''ground'' (SceneManager_ctor None)
       = Inr (False, SceneManager_ctor None)
   \<and> (Image 8 8 1 = NoImage \<or> (\<exists>w h c. Image 8 8 1 = Image w h c \<and> c \<noteq> 3 \<and> c \<noteq> 4))
   \<and> CreateGLTexture (Image 8 8 1) 7 ''ground'' (SceneManager_ctor None)
       = Inr (False, SceneManager_ctor None)"
proof -
  have a: "NoImage = NoImage \<or> (\<exists>w h c. NoImage = Image w h c \<and> c \<noteq> 3 \<and> c \<noteq> 4)"
    by simp
  have b: "Image 8 8 1 = NoImage \<or> (\<exists>w h c. Image 8 8 1 = Image w h c \<and> c \<noteq> 3 \<and> c \<noteq> 4)"
    by simp
  show ?thesis
    using a b CreateGLTexture_failure [OF a, of 7 "''ground''" "SceneManager_ctor None"]
      CreateGLTexture_failure [OF b, of 7 "''ground''" "SceneManager_ctor None"]
    by blast
qed

text \<open>
  C5. Registrations that all succeed, with pairwise distinct tags and at most 16 of them,
  starting from the constructed object: \<open>FindTextureSlot\<close> on the tag of the \<open>i\<close>-th call
  returns \<open>i\<close>, and \<open>FindTextureID\<close> returns the handle that call stored (read as an
  \<open>int\<close>).
\<close>

theorem register_then_find:
  assumes ok: "\<forall>r \<in> set regs. \<exists>w h c. fst r = Image w h c \<and> (c = 3 \<or> c = 4)"
    and dist: "distinct (map (\<lambda>r. snd (snd r)) regs)"
    and cap: "length regs \<le> 16"
  shows "\<exists>s. CreateGLTextures regs (SceneManager_ctor p) = Inr s
           \<and> (\<forall>i < length regs.
                 FindTextureSlot (snd (snd (regs ! i))) s = Inr (int i)
               \<and> FindTextureID (snd (snd (regs ! i))) s = Inr (sint (fst (snd (regs ! i)))))"
proof -
  let ?s0 = "SceneManager_ctor p"
  have cnt0: "m_loadedTextures ?s0 = int 0" and len0: "length (m_textureIDs ?s0) = 16"
    by (simp_all add: SceneManager_ctor_def)
  have "0 + length regs \<le> length (m_textureIDs ?s0)"
    using cap len0 by simp
  from CreateGLTextures_table [OF ok cnt0 this]
  obtain s where run: "CreateGLTextures regs ?s0 = Inr s"
    and cnt: "m_loadedTextures s = int (length regs)"
    and len: "length (m_textureIDs s) = 16"
    and slots: "\<forall>i < length regs. m_textureIDs s ! i =
                  \<lparr>tag = snd (snd (regs ! i)), ID = fst (snd (regs ! i))\<rparr>"
    using len0 by auto
  have "FindTextureSlot (snd (snd (regs ! i))) s = Inr (int i)
      \<and> FindTextureID (snd (snd (regs ! i))) s = Inr (sint (fst (snd (regs ! i))))"
    if i: "i < length regs" for i
  proof -
    have earlier: "\<forall>j. 0 \<le> j \<and> j < i \<longrightarrow> tag (m_textureIDs s ! j) \<noteq> snd (snd (regs ! i))"
    proof (intro allI impI)
      fix j assume j: "0 \<le> j \<and> j < i"
      then have ji: "j < length regs" "j \<noteq> i"
        using i by simp_all
      have "map (\<lambda>r. snd (snd r)) regs ! j \<noteq> map (\<lambda>r. snd (snd r)) regs ! i"
        using dist i ji nth_eq_iff_index_eq [of "map (\<lambda>r. snd (snd r)) regs" j i]
        by (simp del: nth_map)
      then have "snd (snd (regs ! j)) \<noteq> snd (snd (regs ! i))"
        using i ji by simp
      then show "tag (m_textureIDs s ! j) \<noteq> snd (snd (regs ! i))"
        using slots i j by simp
    qed
    have "FindTextureSlot_loop (snd (snd (regs ! i))) s (int 0) = Inr (int i)
        \<and> FindTextureID_loop (snd (snd (regs ! i))) s (int 0) =
            Inr (sint (ID (m_textureIDs s ! i)))"
      using i cnt len cap slots earlier
      by (intro FindTexture_loops_first_match) auto
    then show ?thesis
      using slots i by (simp add: FindTextureSlot_def FindTextureID_def)
  qed
  with run show ?thesis by blast
qed

text \<open>C5 at three registrations: the second tag is found in slot 1 with handle 2.\<close>

theorem register_then_find_witness:
  "distinct (map (\<lambda>r. snd (snd r))
        [(Image 512 512 3, 1 :: GLuint, ''ground''), (Image 256 256 4, 2, ''snow''),
         (Image 64 64 3, 3, ''snowman'')])
   \<and> length [(Image 512 512 3, 1 :: GLuint, ''ground''), (Image 256 256 4, 2, ''snow''),
         (Image 64 64 3, 3, ''snowman'')] \<le> 16
   \<and> (\<exists>s. CreateGLTextures [(Image 512 512 3, 1, ''ground''), (Image 256 256 4, 2, ''snow''),
         (Image 64 64 3, 3, ''snowman'')] (SceneManager_ctor None) = Inr s
         \<and> FindTextureSlot ''snow'' s = Inr 1 \<and> FindTextureID ''snow'' s = Inr 2)"
proof -
  let ?regs = "[(Image 512 512 3, 1 :: GLuint, ''ground''), (Image 256 256 4, 2, ''snow''),
         (Image 64 64 3, 3, ''snowman'')]"
  have ok: "\<forall>r \<in> set ?regs. \<exists>w h c. fst r = Image w h c \<and> (c = 3 \<or> c = 4)"
    by simp
  have dist: "distinct (map (\<lambda>r. snd (snd r)) ?regs)"
    by simp
  have cap: "length ?regs \<le> 16"
    by simp
  from register_then_find [OF ok dist cap, of None]
  obtain s where run: "CreateGLTextures ?regs (SceneManager_ctor None) = Inr s"
    and found: "\<forall>i < length ?regs.
                 FindTextureSlot (snd (snd (?regs ! i))) s = Inr (int i)
               \<and> FindTextureID (snd (snd (?regs ! i))) s = Inr (sint (fst (snd (?regs ! i))))"
    by blast
  from found have "FindTextureSlot ''snow'' s = Inr 1 \<and> FindTextureID ''snow'' s = Inr 2"
    by (auto dest: spec [where x = 1])
  with dist cap run show ?thesis by blast
qed

subsection \<open>A full table\<close>

text \<open>
  C1. After sixteen successful registrations the table is full. A seventeenth call with a
  decodable three-channel image does not return \<open>false\<close>: it stores through
  \<open>m_textureIDs[16]\<close>, outside the array.
\<close>

theorem CreateGLTexture_beyond_capacity:
  "\<exists>s. CreateGLTextures
          [(Image 64 64 3, 1, ''ground''), (Image 64 64 4, 2, ''snow''),
           (Image 64 64 3, 3, ''snowman''), (Image 64 64 3, 4, ''nose''),
           (Image 64 64 3, 5, ''tophat''), (Image 64 64 3, 6, ''giftbox''),
           (Image 64 64 3, 7, ''tree''), (Image 64 64 3, 8, ''moon''),
           (Image 64 64 3, 9, ''turret''), (Image 64 64 3, 10, ''purplelight''),
           (Image 64 64 3, 11, ''ornaments''), (Image 64 64 3, 12, ''star''),
           (Image 64 64 3, 13, ''scarf''), (Image 64 64 3, 14, ''coal''),
           (Image 64 64 3, 15, ''fence''), (Image 64 64 3, 16, ''sled'')]
          (SceneManager_ctor None) = Inr s
      \<and> m_loadedTextures s = 16
      \<and> CreateGLTexture (Image 64 64 3) 17 ''lantern'' s = Inl ArrayOutOfBounds"
proof -
  let ?regs = "[(Image 64 64 3, 1 :: GLuint, ''ground''), (Image 64 64 4, 2, ''snow''),
           (Image 64 64 3, 3, ''snowman''), (Image 64 64 3, 4, ''nose''),
           (Image 64 64 3, 5, ''tophat''), (Image 64 64 3, 6, ''giftbox''),
           (Image 64 64 3, 7, ''tree''), (Image 64 64 3, 8, ''moon''),
           (Image 64 64 3, 9, ''turret''), (Image 64 64 3, 10, ''purplelight''),
           (Image 64 64 3, 11, ''ornaments''), (Image 64 64 3, 12, ''star''),
           (Image 64 64 3, 13, ''scarf''), (Image 64 64 3, 14, ''coal''),
           (Image 64 64 3, 15, ''fence''), (Image 64 64 3, 16, ''sled'')]"
  let ?s0 = "SceneManager_ctor None"
  have ok: "\<forall>r \<in> set ?regs. \<exists>w h c. fst r = Image w h c \<and> (c = 3 \<or> c = 4)"
    by simp
  have cnt0: "m_loadedTextures ?s0 = int 0" and len0: "length (m_textureIDs ?s0) = 16"
    by (simp_all add: SceneManager_ctor_def)
  have "0 + length ?regs \<le> length (m_textureIDs ?s0)"
    using len0 by simp
  from CreateGLTextures_table [OF ok cnt0 this]
  obtain s where run: "CreateGLTextures ?regs ?s0 = Inr s"
    and cnt: "m_loadedTextures s = 16"
    and len: "length (m_textureIDs s) = 16"
    using len0 by auto
  have "CreateGLTexture (Image 64 64 3) 17 ''lantern'' s = Inl ArrayOutOfBounds"
    using cnt len by (intro CreateGLTexture_overflow) simp_all
  with run cnt show ?thesis by blast
qed

subsection \<open>Releasing the textures\<close>

text \<open>
  The loop rewrites the handle of every loaded slot from \<open>i\<close> on and nothing else; so a
  tag keeps its slot, and its handle becomes the name generated for that slot.
\<close>


lemma DestroyGLTextures_loop_result:
  assumes "i \<le> n" and "m_loadedTextures s = int n" and "n \<le> length (m_textureIDs s)"
  shows "\<exists>s'. DestroyGLTextures_loop gen (int i) s = Inr s'
           \<and> m_loadedTextures s' = int n
           \<and> length (m_textureIDs s') = length (m_textureIDs s)
           \<and> (\<forall>j < length (m_textureIDs s). m_textureIDs s' ! j =
                 (if i \<le> j \<and> j < n then (m_textureIDs s ! j)\<lparr>ID := gen (int j)\<rparr>
                  else m_textureIDs s ! j))"
  using assms
proof (induction "n - i" arbitrary: i s)
  case 0
  then have "i = n" by simp
  with "0.prems" show ?case
    by (subst DestroyGLTextures_loop.simps) auto
next
  case (Suc d)
  then have lt: "i < n" by simp
  let ?s1 = "s\<lparr>m_textureIDs := (m_textureIDs s)[i := (m_textureIDs s ! i)\<lparr>ID := gen (int i)\<rparr>]\<rparr>"
  have unfold: "DestroyGLTextures_loop gen (int i) s = DestroyGLTextures_loop gen (int (Suc i)) ?s1"
    using lt Suc.prems(2,3)
    by (subst DestroyGLTextures_loop.simps) (simp add: array_set_def add.commute)
  have "\<exists>s'. DestroyGLTextures_loop gen (int (Suc i)) ?s1 = Inr s'
           \<and> m_loadedTextures s' = int n
           \<and> length (m_textureIDs s') = length (m_textureIDs ?s1)
           \<and> (\<forall>j < length (m_textureIDs ?s1). m_textureIDs s' ! j =
                 (if Suc i \<le> j \<and> j < n then (m_textureIDs ?s1 ! j)\<lparr>ID := gen (int j)\<rparr>
                  else m_textureIDs ?s1 ! j))"
    using Suc.prems Suc.hyps(2) lt by (intro Suc.hyps(1)) auto
  then obtain s' where run: "DestroyGLTextures_loop gen (int (Suc i)) ?s1 = Inr s'"
    and cnt: "m_loadedTextures s' = int n"
    and len: "length (m_textureIDs s') = length (m_textureIDs s)"
    and slots: "\<forall>j < length (m_textureIDs s). m_textureIDs s' ! j =
                 (if Suc i \<le> j \<and> j < n then (m_textureIDs ?s1 ! j)\<lparr>ID := gen (int j)\<rparr>
                  else m_textureIDs ?s1 ! j)"
    by auto
  have "\<forall>j < length (m_textureIDs s). m_textureIDs s' ! j =
                 (if i \<le> j \<and> j < n then (m_textureIDs s ! j)\<lparr>ID := gen (int j)\<rparr>
                  else m_textureIDs s ! j)"
  proof (intro allI impI)
    fix j assume j: "j < length (m_textureIDs s)"
    show "m_textureIDs s' ! j =
                 (if i \<le> j \<and> j < n then (m_textureIDs s ! j)\<lparr>ID := gen (int j)\<rparr>
                  else m_textureIDs s ! j)"
      using slots j lt by (cases "j = i") (auto simp: nth_list_update)
  qed
  with unfold run cnt len show ?case by simp
qed

lemma DestroyGLTextures_regenerates:
  assumes "k < n" and "m_loadedTextures s = int n" and "n \<le> length (m_textureIDs s)"
    and "tag (m_textureIDs s ! k) = tg"
    and "\<forall>j < k. tag (m_textureIDs s ! j) \<noteq> tg"
  shows "\<exists>s'. DestroyGLTextures gen s = Inr s'
           \<and> FindTextureID tg s = Inr (sint (ID (m_textureIDs s ! k)))
           \<and> FindTextureID tg s' = Inr (sint (gen (int k)))
           \<and> FindTextureSlot tg s' = Inr (int k)"
proof -
  have "0 \<le> n" by simp
  from DestroyGLTextures_loop_result [OF this assms(2,3), of gen]
  obtain s' where run: "DestroyGLTextures_loop gen (int 0) s = Inr s'"
    and cnt: "m_loadedTextures s' = int n"
    and len: "length (m_textureIDs s') = length (m_textureIDs s)"
    and slots: "\<forall>j < length (m_textureIDs s). m_textureIDs s' ! j =
                 (if 0 \<le> j \<and> j < n then (m_textureIDs s ! j)\<lparr>ID := gen (int j)\<rparr>
                  else m_textureIDs s ! j)"
    by blast
  have slot_k: "m_textureIDs s' ! k = (m_textureIDs s ! k)\<lparr>ID := gen (int k)\<rparr>"
    using slots assms(1,3) by simp
  have before: "FindTextureSlot_loop tg s (int 0) = Inr (int k)
      \<and> FindTextureID_loop tg s (int 0) = Inr (sint (ID (m_textureIDs s ! k)))"
    using assms by (intro FindTexture_loops_first_match) auto
  have earlier: "\<forall>j. 0 \<le> j \<and> j < k \<longrightarrow> tag (m_textureIDs s' ! j) \<noteq> tg"
    using slots assms(1,3,5) by simp
  have after: "FindTextureSlot_loop tg s' (int 0) = Inr (int k)
      \<and> FindTextureID_loop tg s' (int 0) = Inr (sint (ID (m_textureIDs s' ! k)))"
    using assms(1,3,4) cnt len slot_k earlier
    by (intro FindTexture_loops_first_match) auto
  from run before after slot_k show ?thesis
    by (simp add: DestroyGLTextures_def FindTextureID_def FindTextureSlot_def)
qed

text \<open>
  C3. \<open>DestroyGLTextures\<close> overwrites the stored handles. With one texture registered
  under handle 1, and OpenGL generating the name 2 during the release, \<open>FindTextureID\<close>
  returns 1 before the call and 2 after it.
\<close>

theorem DestroyGLTextures_changes_handle:
  "\<exists>s s'. CreateGLTextures [(Image 512 512 3, 1, ''ground'')] (SceneManager_ctor None) = Inr s
      \<and> FindTextureID ''ground'' s = Inr 1
      \<and> DestroyGLTextures (\<lambda>i. 2) s = Inr s'
      \<and> FindTextureID ''ground'' s' = Inr 2"
  by (simp add: CreateGLTexture_def array_set_def array_get_def SceneManager_ctor_def
      FindTextureID_def FindTextureID_loop.simps
      DestroyGLTextures_def DestroyGLTextures_loop.simps)

section \<open>Properties of the material registry\<close>

lemma FindMaterial_loop_first_match:
  assumes "i \<le> k" and "k < length ms" and "mtag (ms ! k) = tg"
    and "\<forall>j. i \<le> j \<and> j < k \<longrightarrow> mtag (ms ! j) \<noteq> tg"
  shows "FindMaterial_loop tg ms (int i) material =
           material\<lparr>diffuseColor := diffuseColor (ms ! k),
                    specularColor := specularColor (ms ! k),
                    shininess := shininess (ms ! k)\<rparr>"
  using assms
proof (induction "k - i" arbitrary: i)
  case 0
  then have "i = k" by simp
  with "0.prems" show ?case
    by (subst FindMaterial_loop.simps) simp
next
  case (Suc d)
  then have lt: "i < k" by simp
  have next_call: "FindMaterial_loop tg ms (int (Suc i)) material =
           material\<lparr>diffuseColor := diffuseColor (ms ! k),
                    specularColor := specularColor (ms ! k),
                    shininess := shininess (ms ! k)\<rparr>"
    using Suc.prems Suc.hyps(2) lt by (intro Suc.hyps(1)) auto
  have "mtag (ms ! i) \<noteq> tg"
    using Suc.prems(4) lt by simp
  with next_call lt Suc.prems(2) show ?case
    by (subst FindMaterial_loop.simps) (simp add: add.commute)
qed

lemma FindMaterial_loop_no_match:
  assumes "\<forall>j. i \<le> j \<and> j < length ms \<longrightarrow> mtag (ms ! j) \<noteq> tg"
  shows "FindMaterial_loop tg ms (int i) material = material"
  using assms
proof (induction "length ms - i" arbitrary: i)
  case 0
  then show ?case
    by (subst FindMaterial_loop.simps) simp
next
  case (Suc d)
  then have lt: "i < length ms" by simp
  have "FindMaterial_loop tg ms (int (Suc i)) material = material"
    using Suc.prems Suc.hyps(2) by (intro Suc.hyps(1)) auto
  moreover have "mtag (ms ! i) \<noteq> tg"
    using Suc.prems lt by simp
  ultimately show ?case
    using lt by (subst FindMaterial_loop.simps) (simp add: add.commute)
qed

text \<open>
  C7. When several materials carry the tag, \<open>FindMaterial\<close> copies the diffuse colour,
  the specular colour and the shininess of the one with the lowest index: if \<open>k\<close> is the
  first index whose tag is \<open>tg\<close>, the result is the caller's material with the three
  fields of element \<open>k\<close>, whatever comes after \<open>k\<close>.
\<close>

theorem FindMaterial_first_inserted:
  assumes "k < length (m_objectMaterials s)"
    and "mtag (m_objectMaterials s ! k) = tg"
    and "\<forall>j < k. mtag (m_objectMaterials s ! j) \<noteq> tg"
  shows "FindMaterial tg material s =
           (True, material\<lparr>diffuseColor := diffuseColor (m_objectMaterials s ! k),
                           specularColor := specularColor (m_objectMaterials s ! k),
                           shininess := shininess (m_objectMaterials s ! k)\<rparr>)"
proof -
  have "FindMaterial_loop tg (m_objectMaterials s) (int 0) material =
           material\<lparr>diffuseColor := diffuseColor (m_objectMaterials s ! k),
                    specularColor := specularColor (m_objectMaterials s ! k),
                    shininess := shininess (m_objectMaterials s ! k)\<rparr>"
    using assms by (intro FindMaterial_loop_first_match) auto
  moreover have "length (m_objectMaterials s) \<noteq> 0"
    using assms(1) by auto
  ultimately show ?thesis
    by (simp add: FindMaterial_def)
qed

text \<open>
  C7 on a registry whose second and third materials are both tagged \<open>sand\<close>: the values
  of the second one come back.
\<close>

theorem FindMaterial_first_inserted_witness:
  "FindMaterial ''sand''
     \<lparr>diffuseColor = (9, 9, 9), specularColor = (9, 9, 9), shininess = 9, mtag = ''''\<rparr>
     ((SceneManager_ctor None)\<lparr>m_objectMaterials :=
        [\<lparr>diffuseColor = (0, 0, 0), specularColor = (0, 0, 0), shininess = 52,
          mtag = ''silver''\<rparr>,
         \<lparr>diffuseColor = (0.714, 0.4284, 0.1814),
          specularColor = (0.393548, 0.271906, 0.166721), shininess = 20, mtag = ''sand''\<rparr>,
         \<lparr>diffuseColor = (0.5, 0, 0), specularColor = (0.7, 0.6, 0.6), shininess = 0.25,
          mtag = ''sand''\<rparr>]\<rparr>)
   = (True, \<lparr>diffuseColor = (0.714, 0.4284, 0.1814),
             specularColor = (0.393548, 0.271906, 0.166721), shininess = 20, mtag = ''''\<rparr>)"
proof -
  let ?ms = "[\<lparr>diffuseColor = (0, 0, 0), specularColor = (0, 0, 0), shininess = 52,
          mtag = ''silver''\<rparr>,
         \<lparr>diffuseColor = (0.714, 0.4284, 0.1814),
          specularColor = (0.393548, 0.271906, 0.166721), shininess = 20, mtag = ''sand''\<rparr>,
         \<lparr>diffuseColor = (0.5, 0, 0), specularColor = (0.7, 0.6, 0.6), shininess = 0.25,
          mtag = ''sand''\<rparr>] :: OBJECT_MATERIAL list"
  let ?s = "(SceneManager_ctor None)\<lparr>m_objectMaterials := ?ms\<rparr>"
  have a: "1 < length (m_objectMaterials ?s)" by simp
  have b: "mtag (m_objectMaterials ?s ! 1) = ''sand''" by simp
  have c: "\<forall>j < 1. mtag (m_objectMaterials ?s ! j) \<noteq> ''sand''" by simp
  show ?thesis
    using FindMaterial_first_inserted [OF a b c] by simp
qed

text \<open>
  C8. On a non-empty registry and a tag that no material carries, \<open>FindMaterial\<close> returns
  \<open>true\<close> and the caller's material untouched, and \<open>SetShaderMaterial\<close> pushes the three
  fields of its uninitialised local to the shader (or dereferences a null shader manager).
\<close>

theorem FindMaterial_no_match_returns_true:
  assumes "m_objectMaterials s \<noteq> []"
    and "\<forall>m \<in> set (m_objectMaterials s). mtag m \<noteq> tg"
  shows "FindMaterial tg material s = (True, material)
       \<and> SetShaderMaterial tg material s =
           (case m_pShaderManager s of
              None \<Rightarrow> Inl NullPointer
            | Some sh \<Rightarrow>
                Inr (s\<lparr>m_pShaderManager := Some (sh @
                  [(''material.diffuseColor'', Vec3Value (diffuseColor material)),
                   (''material.specularColor'', Vec3Value (specularColor material)),
                   (''material.shininess'', FloatValue (shininess material))])\<rparr>))"
proof -
  have "FindMaterial_loop tg (m_objectMaterials s) (int 0) material = material"
    using assms(2) by (intro FindMaterial_loop_no_match) simp
  then have found: "FindMaterial tg material s = (True, material)"
    using assms(1) by (simp add: FindMaterial_def)
  then show ?thesis
    using assms(1)
    by (simp add: SetShaderMaterial_def setVec3Value_def setFloatValue_def
        split: option.split)
qed

text \<open>C8 on a registry holding only \<open>sand\<close>, asked for \<open>glass\<close>.\<close>

theorem FindMaterial_no_match_returns_true_witness:
  "FindMaterial ''glass''
     \<lparr>diffuseColor = (9, 9, 9), specularColor = (8, 8, 8), shininess = 7, mtag = ''''\<rparr>
     ((SceneManager_ctor (Some []))\<lparr>m_objectMaterials :=
        [\<lparr>diffuseColor = (0.714, 0.4284, 0.1814),
          specularColor = (0.393548, 0.271906, 0.166721), shininess = 20, mtag = ''sand''\<rparr>]\<rparr>)
   = (True, \<lparr>diffuseColor = (9, 9, 9), specularColor = (8, 8, 8), shininess = 7, mtag = ''''\<rparr>)
   \<and> SetShaderMaterial ''glass''
     \<lparr>diffuseColor = (9, 9, 9), specularColor = (8, 8, 8), shininess = 7, mtag = ''''\<rparr>
     ((SceneManager_ctor (Some []))\<lparr>m_objectMaterials :=
        [\<lparr>diffuseColor = (0.714, 0.4284, 0.1814),
          specularColor = (0.393548, 0.271906, 0.166721), shininess = 20, mtag = ''sand''\<rparr>]\<rparr>)
   = Inr ((SceneManager_ctor (Some []))\<lparr>m_objectMaterials :=
        [\<lparr>diffuseColor = (0.714, 0.4284, 0.1814),
          specularColor = (0.393548, 0.271906, 0.166721), shininess = 20, mtag = ''sand''\<rparr>],
        m_pShaderManager := Some
          [(''material.diffuseColor'', Vec3Value (9, 9, 9)),
           (''material.specularColor'', Vec3Value (8, 8, 8)),
           (''material.shininess'', FloatValue 7)]\<rparr>)"
proof -
  let ?ms = "[\<lparr>diffuseColor = (0.714, 0.4284, 0.1814),
          specularColor = (0.393548, 0.271906, 0.166721), shininess = 20, mtag = ''sand''\<rparr>]
          :: OBJECT_MATERIAL list"
  let ?s = "(SceneManager_ctor (Some []))\<lparr>m_objectMaterials := ?ms\<rparr>"
  have a: "m_objectMaterials ?s \<noteq> []" by simp
  have b: "\<forall>m \<in> set (m_objectMaterials ?s). mtag m \<noteq> ''glass''" by simp
  show ?thesis
    using FindMaterial_no_match_returns_true [OF a b]
    by (simp add: SceneManager_ctor_def)
qed

text \<open>
  C2. \<open>FindMaterial\<close> does not report not-found for an unknown tag unless the registry is
  empty: with \<open>sand\<close> and \<open>silver\<close> defined, the lookup of \<open>glass\<close> returns \<open>true\<close>.
\<close>

theorem FindMaterial_unknown_tag_reports_found:
  "FindMaterial ''glass''
     \<lparr>diffuseColor = (9, 9, 9), specularColor = (8, 8, 8), shininess = 7, mtag = ''''\<rparr>
     ((SceneManager_ctor None)\<lparr>m_objectMaterials :=
        [\<lparr>diffuseColor = (0.714, 0.4284, 0.1814),
          specularColor = (0.393548, 0.271906, 0.166721), shininess = 20, mtag = ''sand''\<rparr>,
         \<lparr>diffuseColor = (0, 0, 0), specularColor = (0, 0, 0), shininess = 52,
          mtag = ''silver''\<rparr>]\<rparr>)
   = (True, \<lparr>diffuseColor = (9, 9, 9), specularColor = (8, 8, 8), shininess = 7, mtag = ''''\<rparr>)"
  by (simp add: FindMaterial_def FindMaterial_loop.simps)

section \<open>Properties of the model matrix\<close>

lemma mat4_vec4_mul: "mat4_vec4 (mat4_mul a b) v = mat4_vec4 a (mat4_vec4 b v)"
  by (simp add: mat4_vec4_def mat4_mul_def algebra_simps split: prod.splits)

lemma modelView_apply:
  "mat4_vec4 (modelView scaleXYZ rx ry rz positionXYZ) v =
     mat4_vec4 (glm_translate positionXYZ)
       (mat4_vec4 (glm_rotate (glm_radians rz) (0, 0, 1))
         (mat4_vec4 (glm_rotate (glm_radians ry) (0, 1, 0))
           (mat4_vec4 (glm_rotate (glm_radians rx) (1, 0, 0))
             (mat4_vec4 (glm_scale scaleXYZ) v))))"
  by (simp add: modelView_def Let_def mat4_vec4_mul)

lemma rotate_x: "glm_rotate a (1, 0, 0) =
   ((1, 0, 0, 0), (0, cos a, sin a, 0), (0, - sin a, cos a, 0), (0, 0, 0, 1))"
  by (simp add: glm_rotate_def glm_normalize_def Let_def)

lemma rotate_y: "glm_rotate a (0, 1, 0) =
   ((cos a, 0, - sin a, 0), (0, 1, 0, 0), (sin a, 0, cos a, 0), (0, 0, 0, 1))"
  by (simp add: glm_rotate_def glm_normalize_def Let_def)

lemma rotate_z: "glm_rotate a (0, 0, 1) =
   ((cos a, sin a, 0, 0), (- sin a, cos a, 0, 0), (0, 0, 1, 0), (0, 0, 0, 1))"
  by (simp add: glm_rotate_def glm_normalize_def Let_def)

lemma example_image:
  "mat4_vec4 (modelView (2, 1, 1) 0 0 90 (1, 0, 0)) (1, 0, 0, 1) = (1, 2, 0, 1)"
  by (subst modelView_apply)
     (simp add: rotate_x rotate_y rotate_z glm_radians_def glm_scale_def
      glm_translate_def mat4_vec4_def)

text \<open>
  C4, the example as the claim states it. With scale \<open>(2, 1, 1)\<close>, a rotation of 90
  degrees about Z and translation \<open>(1, 0, 0)\<close>, the point \<open>(1, 0, 0)\<close> is scaled to
  \<open>(2, 0, 0)\<close>, rotated to \<open>(0, 2, 0)\<close> and translated to \<open>(1, 2, 0)\<close>: its second
  coordinate is 2, a whole unit away from the 1 of the claim.
\<close>

theorem SetTransformations_example_counterexample:
  "mat4_vec4 (modelView (2, 1, 1) 0 0 90 (1, 0, 0)) (1, 0, 0, 1) = (1, 2, 0, 1)
   \<and> \<not> \<bar>fst (snd (mat4_vec4 (modelView (2, 1, 1) 0 0 90 (1, 0, 0)) (1, 0, 0, 1))) - 1\<bar>
         \<le> 1 / 1000"
  by (simp add: example_image)

text \<open>
  C4, amended. \<open>SetTransformations\<close> pushes the product
  translation * rotationZ * rotationY * rotationX * scale as the uniform \<open>model\<close>;
  applying that matrix to a vector scales it first, then rotates it about X, Y and Z, then
  translates it; and in the example the point \<open>(1, 0, 0)\<close> goes to \<open>(1, 2, 0)\<close>.
\<close>

theorem SetTransformations_model_matrix:
  "SetTransformations scaleXYZ rx ry rz positionXYZ (s\<lparr>m_pShaderManager := Some sh\<rparr>) =
     s\<lparr>m_pShaderManager := Some (sh @
        [(''model'', Mat4Value
           (mat4_mul (mat4_mul (mat4_mul (mat4_mul (glm_translate positionXYZ)
              (glm_rotate (glm_radians rz) (0, 0, 1)))
              (glm_rotate (glm_radians ry) (0, 1, 0)))
              (glm_rotate (glm_radians rx) (1, 0, 0)))
              (glm_scale scaleXYZ)))])\<rparr>
   \<and> mat4_vec4 (modelView scaleXYZ rx ry rz positionXYZ) v =
       mat4_vec4 (glm_translate positionXYZ)
         (mat4_vec4 (glm_rotate (glm_radians rz) (0, 0, 1))
           (mat4_vec4 (glm_rotate (glm_radians ry) (0, 1, 0))
             (mat4_vec4 (glm_rotate (glm_radians rx) (1, 0, 0))
               (mat4_vec4 (glm_scale scaleXYZ) v))))
   \<and> mat4_vec4 (modelView (2, 1, 1) 0 0 90 (1, 0, 0)) (1, 0, 0, 1) = (1, 2, 0, 1)"
proof (intro conjI)
  show "SetTransformations scaleXYZ rx ry rz positionXYZ (s\<lparr>m_pShaderManager := Some sh\<rparr>) =
     s\<lparr>m_pShaderManager := Some (sh @
        [(''model'', Mat4Value
           (mat4_mul (mat4_mul (mat4_mul (mat4_mul (glm_translate positionXYZ)
              (glm_rotate (glm_radians rz) (0, 0, 1)))
              (glm_rotate (glm_radians ry) (0, 1, 0)))
              (glm_rotate (glm_radians rx) (1, 0, 0)))
              (glm_scale scaleXYZ)))])\<rparr>"
    by (simp add: SetTransformations_def setMat4Value_def modelView_def)
qed (rule modelView_apply, rule example_image)

section \<open>Properties of binary rounding\<close>

text \<open>
  Rounding is monotone, leaves the numbers it produces unchanged, and can be computed on a
  fraction by integer division once the exponent is known.
\<close>

lemma round_even_bounds: "of_int \<lfloor>t\<rfloor> \<le> (of_int (round_even t) :: real)"
  "round_even t \<le> \<lfloor>t\<rfloor> + 1"
  by (simp_all add: round_even_def Let_def)

lemma round_even_of_int: "round_even (of_int m) = m"
  by (simp add: round_even_def)

lemma round_even_mono: "s \<le> t \<Longrightarrow> round_even s \<le> round_even t"
proof -
  assume st: "s \<le> t"
  then have fl: "\<lfloor>s\<rfloor> \<le> \<lfloor>t\<rfloor>" by (rule floor_mono)
  show ?thesis
  proof (cases "\<lfloor>s\<rfloor> = \<lfloor>t\<rfloor>")
    case True
    then show ?thesis
      using st by (auto simp: round_even_def Let_def)
  next
    case False
    with fl have "\<lfloor>s\<rfloor> + 1 \<le> \<lfloor>t\<rfloor>" by simp
    moreover have "round_even s \<le> \<lfloor>s\<rfloor> + 1" by (rule round_even_bounds)
    moreover have "\<lfloor>t\<rfloor> \<le> round_even t"
      by (simp add: round_even_def Let_def)
    ultimately show ?thesis by linarith
  qed
qed

lemma round_even_ge_int: "of_int m \<le> t \<Longrightarrow> m \<le> round_even t"
  using round_even_mono [of "of_int m" t] by (simp add: round_even_of_int)

lemma round_even_le_int: "t \<le> of_int m \<Longrightarrow> round_even t \<le> m"
  using round_even_mono [of t "of_int m"] by (simp add: round_even_of_int)

lemma powr_powi: "(2::real) powr (of_int k) = 2 powi k"
  by (simp add: powr_real_of_int power_int_def power_one_over inverse_eq_divide)

lemma exponent_iff:
  assumes "0 < a"
  shows "\<lfloor>log 2 a\<rfloor> = e \<longleftrightarrow> 2 powi e \<le> a \<and> a < 2 powi (e + 1)"
proof -
  have "(2::real) powr (of_int e + 1) = 2 powi (e + 1)"
    using powr_powi [of "e + 1"] by simp
  then show ?thesis
    using floor_log_eq_powr_iff [OF assms, of 2 e] by (simp add: powr_powi)
qed

lemma exponent_bounds:
  assumes "v \<noteq> 0"
  shows "2 powi \<lfloor>log 2 \<bar>v\<bar>\<rfloor> \<le> \<bar>v\<bar>" and "\<bar>v\<bar> < 2 powi (\<lfloor>log 2 \<bar>v\<bar>\<rfloor> + 1)"
  using exponent_iff [of "\<bar>v\<bar>" "\<lfloor>log 2 \<bar>v\<bar>\<rfloor>"] assms by simp_all

lemma exponent_eq:
  assumes "2 powi e \<le> \<bar>v\<bar>" and "\<bar>v\<bar> < 2 powi (e + 1)"
  shows "\<lfloor>log 2 \<bar>v\<bar>\<rfloor> = e"
proof -
  have "(0::real) < 2 powi e" by simp
  with assms(1) have "0 < \<bar>v\<bar>" by linarith
  then show ?thesis
    using exponent_iff [of "\<bar>v\<bar>" e] assms by simp
qed

lemma exponent_mono:
  assumes "v \<noteq> 0" and "\<bar>v\<bar> \<le> \<bar>w\<bar>"
  shows "\<lfloor>log 2 \<bar>v\<bar>\<rfloor> \<le> \<lfloor>log 2 \<bar>w\<bar>\<rfloor>"
  using assms by (intro floor_mono) simp

lemma quantum_mono:
  assumes "v \<noteq> 0" and "\<bar>v\<bar> \<le> \<bar>w\<bar>"
  shows "quantum p qmin v \<le> quantum p qmin w"
  using exponent_mono [OF assms] by (simp add: quantum_def)


lemma round_binary_ge_grid:
  assumes "of_int m * 2 powi quantum p qmin v \<le> v"
  shows "of_int m * 2 powi quantum p qmin v \<le> round_binary p qmin v"
proof (cases "v = 0")
  case True
  with assms show ?thesis by (simp add: round_binary_def)
next
  case False
  let ?u = "(2::real) powi quantum p qmin v"
  have u: "0 < ?u" by simp
  from assms have "of_int m \<le> v / ?u"
    using u by (simp add: pos_le_divide_eq)
  then have "m \<le> round_even (v / ?u)" by (rule round_even_ge_int)
  then have "(of_int m :: real) \<le> of_int (round_even (v / ?u))" by simp
  then have "of_int m * ?u \<le> of_int (round_even (v / ?u)) * ?u"
    using u by (simp only: mult_le_cancel_right_pos)
  with False show ?thesis by (simp add: round_binary_def)
qed

lemma round_binary_le_grid:
  assumes "v \<le> of_int m * 2 powi quantum p qmin v"
  shows "round_binary p qmin v \<le> of_int m * 2 powi quantum p qmin v"
proof (cases "v = 0")
  case True
  with assms show ?thesis by (simp add: round_binary_def)
next
  case False
  let ?u = "(2::real) powi quantum p qmin v"
  have u: "0 < ?u" by simp
  from assms have "v / ?u \<le> of_int m"
    using u by (simp add: pos_divide_le_eq)
  then have "round_even (v / ?u) \<le> m" by (rule round_even_le_int)
  then have "(of_int (round_even (v / ?u)) :: real) \<le> of_int m" by simp
  then have "of_int (round_even (v / ?u)) * ?u \<le> of_int m * ?u"
    using u by (simp only: mult_le_cancel_right_pos)
  with False show ?thesis by (simp add: round_binary_def)
qed

lemma pow2_on_grid:
  assumes "q \<le> k"
  shows "(2::real) powi k = of_int (2 ^ nat (k - q)) * 2 powi q"
proof -
  define n where "n = nat (k - q)"
  have k: "k = int n + q"
    using assms by (simp add: n_def)
  have "(2::real) powi (int n + q) = 2 powi int n * 2 powi q"
    by (rule power_int_add) simp
  then show ?thesis
    unfolding n_def [symmetric] k by simp
qed

lemma round_binary_pow2:
  assumes "quantum p qmin v \<le> k"
  shows "2 powi k \<le> v \<Longrightarrow> 2 powi k \<le> round_binary p qmin v"
    and "v \<le> 2 powi k \<Longrightarrow> round_binary p qmin v \<le> 2 powi k"
    and "- (2 powi k) \<le> v \<Longrightarrow> - (2 powi k) \<le> round_binary p qmin v"
    and "v \<le> - (2 powi k) \<Longrightarrow> round_binary p qmin v \<le> - (2 powi k)"
proof -
  let ?m = "2 ^ nat (k - quantum p qmin v) :: int"
  have pos: "(2::real) powi k = of_int ?m * 2 powi quantum p qmin v"
    by (rule pow2_on_grid [OF assms])
  have neg: "- ((2::real) powi k) = of_int (- ?m) * 2 powi quantum p qmin v"
    using pos by simp
  show "2 powi k \<le> v \<Longrightarrow> 2 powi k \<le> round_binary p qmin v"
    unfolding pos by (rule round_binary_ge_grid)
  show "v \<le> 2 powi k \<Longrightarrow> round_binary p qmin v \<le> 2 powi k"
    unfolding pos by (rule round_binary_le_grid)
  show "- (2 powi k) \<le> v \<Longrightarrow> - (2 powi k) \<le> round_binary p qmin v"
    unfolding neg by (rule round_binary_ge_grid)
  show "v \<le> - (2 powi k) \<Longrightarrow> round_binary p qmin v \<le> - (2 powi k)"
    unfolding neg by (rule round_binary_le_grid)
qed

lemma round_binary_sign:
  shows "0 \<le> v \<Longrightarrow> 0 \<le> round_binary p qmin v"
    and "v \<le> 0 \<Longrightarrow> round_binary p qmin v \<le> 0"
  using round_binary_ge_grid [of 0 p qmin v] round_binary_le_grid [of v 0 p qmin]
  by simp_all

lemma round_binary_mono_same_sign:
  assumes p: "0 < p" and small: "\<bar>a\<bar> \<le> \<bar>b\<bar>" and a: "a \<noteq> 0"
  shows "0 < a \<Longrightarrow> 0 < b \<Longrightarrow> round_binary p qmin a \<le> round_binary p qmin b"
    and "a < 0 \<Longrightarrow> b < 0 \<Longrightarrow> round_binary p qmin b \<le> round_binary p qmin a"
proof -
  have b: "b \<noteq> 0" using small a by auto
  let ?qa = "quantum p qmin a" and ?qb = "quantum p qmin b"
  have q: "?qa \<le> ?qb" by (rule quantum_mono [OF a small])
  show "round_binary p qmin a \<le> round_binary p qmin b" if "0 < a" "0 < b"
  proof (cases "?qa = ?qb")
    case True
    have "a / 2 powi ?qb \<le> b / 2 powi ?qb"
      using small that by (simp add: divide_right_mono)
    then have "round_even (a / 2 powi ?qb) \<le> round_even (b / 2 powi ?qb)"
      by (rule round_even_mono)
    then have "(of_int (round_even (a / 2 powi ?qb)) :: real) * 2 powi ?qb
        \<le> of_int (round_even (b / 2 powi ?qb)) * 2 powi ?qb"
      by (simp add: mult_right_mono)
    then show ?thesis
      using a b True by (simp add: round_binary_def)
  next
    case False
    let ?k = "\<lfloor>log 2 \<bar>b\<bar>\<rfloor>"
    from False q have lt: "?qa < ?qb" by simp
    then have kb: "?qb \<le> ?k" and ka: "?qa \<le> ?k" and e: "\<lfloor>log 2 \<bar>a\<bar>\<rfloor> + 1 \<le> ?k"
      using p by (auto simp: quantum_def max_def split: if_splits)
    have "\<bar>a\<bar> < 2 powi (\<lfloor>log 2 \<bar>a\<bar>\<rfloor> + 1)"
      by (rule exponent_bounds [OF a])
    also have "\<dots> \<le> 2 powi ?k"
      using e by (intro power_int_increasing) simp_all
    finally have "a \<le> 2 powi ?k" using that by simp
    then have "round_binary p qmin a \<le> 2 powi ?k"
      by (rule round_binary_pow2(2) [OF ka])
    moreover have "2 powi ?k \<le> b"
      using exponent_bounds(1) [OF b] that by simp
    then have "2 powi ?k \<le> round_binary p qmin b"
      by (rule round_binary_pow2(1) [OF kb])
    ultimately show ?thesis by simp
  qed
  show "round_binary p qmin b \<le> round_binary p qmin a" if "a < 0" "b < 0"
  proof (cases "?qa = ?qb")
    case True
    have "b / 2 powi ?qb \<le> a / 2 powi ?qb"
      using small that by (simp add: divide_right_mono)
    then have "round_even (b / 2 powi ?qb) \<le> round_even (a / 2 powi ?qb)"
      by (rule round_even_mono)
    then have "(of_int (round_even (b / 2 powi ?qb)) :: real) * 2 powi ?qb
        \<le> of_int (round_even (a / 2 powi ?qb)) * 2 powi ?qb"
      by (simp add: mult_right_mono)
    then show ?thesis
      using a b True by (simp add: round_binary_def)
  next
    case False
    let ?k = "\<lfloor>log 2 \<bar>b\<bar>\<rfloor>"
    from False q have lt: "?qa < ?qb" by simp
    then have kb: "?qb \<le> ?k" and ka: "?qa \<le> ?k" and e: "\<lfloor>log 2 \<bar>a\<bar>\<rfloor> + 1 \<le> ?k"
      using p by (auto simp: quantum_def max_def split: if_splits)
    have "\<bar>a\<bar> < 2 powi (\<lfloor>log 2 \<bar>a\<bar>\<rfloor> + 1)"
      by (rule exponent_bounds [OF a])
    also have "\<dots> \<le> 2 powi ?k"
      using e by (intro power_int_increasing) simp_all
    finally have "- (2 powi ?k) \<le> a" using that by simp
    then have "- (2 powi ?k) \<le> round_binary p qmin a"
      by (rule round_binary_pow2(3) [OF ka])
    moreover have "b \<le> - (2 powi ?k)"
      using exponent_bounds(1) [OF b] that by simp
    then have "round_binary p qmin b \<le> - (2 powi ?k)"
      by (rule round_binary_pow2(4) [OF kb])
    ultimately show ?thesis by simp
  qed
qed

lemma round_binary_mono:
  assumes "0 < p" and "a \<le> b"
  shows "round_binary p qmin a \<le> round_binary p qmin b"
proof -
  consider "a \<le> 0" "0 \<le> b" | "0 < a" | "b < 0" by linarith
  then show ?thesis
  proof cases
    case 1
    then show ?thesis
      using round_binary_sign(2) [of a p qmin] round_binary_sign(1) [of b p qmin] by simp
  next
    case 2
    with assms show ?thesis
      by (intro round_binary_mono_same_sign(1)) simp_all
  next
    case 3
    with assms show ?thesis
      by (intro round_binary_mono_same_sign(2)) simp_all
  qed
qed

lemma float32_mono: "a \<le> b \<Longrightarrow> float32 a \<le> float32 b"
  unfolding float32_def by (rule round_binary_mono) simp_all


lemma round_even_rat:
  fixes A b :: int
  assumes "0 < b"
  shows "round_even (of_int A / of_int b) =
           (if 2 * (A mod b) < b then A div b
            else if b < 2 * (A mod b) then A div b + 1
            else if even (A div b) then A div b else A div b + 1)"
proof -
  have fl: "\<lfloor>(of_int A / of_int b :: real)\<rfloor> = A div b"
    by (simp add: floor_divide_of_int_eq)
  have "(of_int A :: real) = of_int (A div b) * of_int b + of_int (A mod b)"
    by (metis div_mult_mod_eq of_int_add of_int_mult)
  then have d: "(of_int A / of_int b :: real) - of_int (A div b) = of_int (A mod b) / of_int b"
    using assms by (simp add: field_simps)
  have half: "(of_int (A mod b) / of_int b :: real) < 1 / 2 \<longleftrightarrow> 2 * (A mod b) < b"
    "(1 / 2 :: real) < of_int (A mod b) / of_int b \<longleftrightarrow> b < 2 * (A mod b)"
    using assms by (simp_all add: field_simps) linarith+
  show ?thesis
    unfolding round_even_def Let_def fl d half by simp
qed

lemma round_binary_eval:
  assumes "2 powi e \<le> \<bar>v\<bar>" and "\<bar>v\<bar> < 2 powi (e + 1)"
  shows "round_binary p qmin v =
           of_int (round_even (v / 2 powi max (e - (int p - 1)) qmin))
             * 2 powi max (e - (int p - 1)) qmin"
proof -
  have "(0::real) < 2 powi e" by simp
  with assms(1) have "0 < \<bar>v\<bar>" by linarith
  then have "v \<noteq> 0" by simp
  then show ?thesis
    using exponent_eq [OF assms] by (simp add: round_binary_def quantum_def)
qed

lemma round_binary_frac:
  fixes a b :: int
  assumes b: "0 < b"
    and lo: "2 powi e \<le> \<bar>of_int a / of_int b :: real\<bar>"
    and hi: "\<bar>of_int a / of_int b :: real\<bar> < 2 powi (e + 1)"
    and q: "max (e - (int p - 1)) qmin = - int n"
  shows "round_binary p qmin (of_int a / of_int b) =
           of_int (if 2 * ((a * 2 ^ n) mod b) < b then (a * 2 ^ n) div b
                   else if b < 2 * ((a * 2 ^ n) mod b) then (a * 2 ^ n) div b + 1
                   else if even ((a * 2 ^ n) div b) then (a * 2 ^ n) div b
                   else (a * 2 ^ n) div b + 1) / 2 ^ n"
proof -
  have scale: "(2::real) powi (- int n) = 1 / 2 ^ n"
    by (simp add: power_int_minus inverse_eq_divide)
  have "(of_int a / of_int b :: real) / 2 powi (- int n) = of_int (a * 2 ^ n) / of_int b"
    unfolding scale by simp
  then show ?thesis
    unfolding round_binary_eval [OF lo hi] q round_even_rat [OF b, symmetric]
    by (simp add: scale)
qed

lemma round_even_small: "\<bar>t\<bar> < 1 / 2 \<Longrightarrow> round_even t = 0"
proof -
  assume t: "\<bar>t\<bar> < 1 / 2"
  have "round_even t \<le> 0"
    using round_even_mono [of t "1 / 2"] t by (simp add: round_even_def)
  moreover have "0 \<le> round_even t"
    using round_even_mono [of "- (1 / 2)" t] t by (simp add: round_even_def)
  ultimately show ?thesis by simp
qed

lemma pow2_less_cancel:
  assumes "(2::real) powi a < 2 powi b"
  shows "a < b"
proof (rule ccontr)
  assume "\<not> a < b"
  then have "b \<le> a" by simp
  then have "(2::real) powi b \<le> 2 powi a"
    by (intro power_int_increasing) simp_all
  with assms show False by simp
qed

lemma round_binary_on_grid:
  assumes "v = of_int n * 2 powi quantum p qmin v"
  shows "round_binary p qmin v = v"
proof (cases "v = 0")
  case True
  then show ?thesis by (simp add: round_binary_def)
next
  case False
  have "v / 2 powi quantum p qmin v = of_int n"
    by (subst assms) simp
  then show ?thesis
    using False assms by (simp add: round_binary_def round_even_of_int)
qed

lemma round_binary_idem:
  assumes p: "0 < p"
  shows "round_binary p qmin (round_binary p qmin v) = round_binary p qmin v"
proof (cases "round_binary p qmin v = 0")
  case True
  then show ?thesis by (simp add: round_binary_def)
next
  case False
  let ?w = "round_binary p qmin v"
  let ?q = "quantum p qmin v"
  let ?m = "round_even (v / 2 powi ?q)"
  let ?k = "\<lfloor>log 2 \<bar>v\<bar>\<rfloor> + 1"
  from False have v: "v \<noteq> 0" by (auto simp: round_binary_def)
  have w: "?w = of_int ?m * 2 powi ?q"
    using v by (simp add: round_binary_def)
  have v_lt: "\<bar>v\<bar> < 2 powi ?k"
    by (rule exponent_bounds [OF v])
  have qk: "?q \<le> ?k"
  proof (rule ccontr)
    assume "\<not> ?q \<le> ?k"
    then have "?k \<le> ?q - 1" by simp
    then have "(2::real) powi ?k \<le> 2 powi (?q - 1)"
      by (intro power_int_increasing) simp_all
    also have "\<dots> = 2 powi ?q / 2"
      by (simp add: power_int_diff)
    finally have "\<bar>v\<bar> < 2 powi ?q / 2" using v_lt by simp
    then have "\<bar>v / 2 powi ?q\<bar> < 1 / 2"
      by (simp add: field_simps)
    then have "?m = 0" by (rule round_even_small)
    with w False show False by simp
  qed
  have upper: "?w \<le> 2 powi ?k" and lower: "- (2 powi ?k) \<le> ?w"
    using v_lt round_binary_pow2(2) [OF qk] round_binary_pow2(3) [OF qk]
    by simp_all
  then have w_le: "\<bar>?w\<bar> \<le> 2 powi ?k" by simp
  let ?q' = "quantum p qmin ?w"
  have "\<exists>n. ?w = of_int n * 2 powi ?q'"
  proof (cases "\<bar>?w\<bar> < 2 powi ?k")
    case True
    have "2 powi \<lfloor>log 2 \<bar>?w\<bar>\<rfloor> \<le> \<bar>?w\<bar>"
      by (rule exponent_bounds [OF False])
    with True have "(2::real) powi \<lfloor>log 2 \<bar>?w\<bar>\<rfloor> < 2 powi ?k" by simp
    then have "\<lfloor>log 2 \<bar>?w\<bar>\<rfloor> < ?k"
      by (rule pow2_less_cancel)
    then have "?q' \<le> ?q"
      by (simp add: quantum_def)
    then have "(2::real) powi ?q = of_int (2 ^ nat (?q - ?q')) * 2 powi ?q'"
      by (rule pow2_on_grid)
    then have "?w = of_int (?m * 2 ^ nat (?q - ?q')) * 2 powi ?q'"
      using w by simp
    then show ?thesis by blast
  next
    case False
    with w_le have eq: "\<bar>?w\<bar> = 2 powi ?k" by simp
    have "\<bar>?w\<bar> < 2 powi (?k + 1)"
      unfolding eq by (intro power_int_strict_increasing) simp_all
    then have "\<lfloor>log 2 \<bar>?w\<bar>\<rfloor> = ?k"
      using eq by (intro exponent_eq) simp_all
    moreover have "qmin \<le> ?k"
      using qk by (simp add: quantum_def)
    ultimately have "?q' \<le> ?k"
      using p by (simp add: quantum_def)
    then have grid: "(2::real) powi ?k = of_int (2 ^ nat (?k - ?q')) * 2 powi ?q'"
      by (rule pow2_on_grid)
    from eq have "?w = 2 powi ?k \<or> ?w = - (2 powi ?k)"
      by (auto simp: abs_if split: if_splits)
    then show ?thesis
    proof
      assume "?w = 2 powi ?k"
      with grid show ?thesis by metis
    next
      assume "?w = - (2 powi ?k)"
      with grid have "?w = of_int (- (2 ^ nat (?k - ?q'))) * 2 powi ?q'" by simp
      then show ?thesis by blast
    qed
  qed
  then obtain n where "?w = of_int n * 2 powi ?q'" by blast
  then show ?thesis by (rule round_binary_on_grid)
qed

lemma float32_idem: "float32 (float32 v) = float32 v"
  unfolding float32_def by (rule round_binary_idem) simp

section \<open>Properties of the brick breaker\<close>

subsection \<open>Brick health\<close>

lemma CheckCollision_brick_cases:
  "snd (CheckCollision rand c brk) = brk
   \<or> (brick_type brk = DESTRUCTABLE \<and> Brick.onoff brk = ON \<and> 0 < Brick.health brk
        \<and> onoff c = ON \<and> hits c brk
        \<and> snd (CheckCollision rand c brk) =
            brk\<lparr>Brick.health := Brick.health brk - 1,
                Brick.onoff := (if Brick.health brk - 1 \<le> 0 then OFF else ON)\<rparr>)"
  by (cases "brick_type brk") (auto simp: CheckCollision_def Let_def)

lemma CheckCollision_keeps_invariant:
  assumes "0 \<le> Brick.health brk \<and> (Brick.health brk \<le> 0 \<longrightarrow> Brick.onoff brk = OFF)"
  shows "0 \<le> Brick.health (snd (CheckCollision rand c brk))
       \<and> (Brick.health (snd (CheckCollision rand c brk)) \<le> 0
            \<longrightarrow> Brick.onoff (snd (CheckCollision rand c brk)) = OFF)"
  using assms CheckCollision_brick_cases [of rand c brk] by auto

lemma CheckCollision_fold_invariant:
  assumes "0 \<le> Brick.health brk \<and> (Brick.health brk \<le> 0 \<longrightarrow> Brick.onoff brk = OFF)"
  shows "0 \<le> Brick.health (fold (\<lambda>(rand, c) b. snd (CheckCollision rand c b)) calls brk)
       \<and> (Brick.health (fold (\<lambda>(rand, c) b. snd (CheckCollision rand c b)) calls brk) \<le> 0
            \<longrightarrow> Brick.onoff (fold (\<lambda>(rand, c) b. snd (CheckCollision rand c b)) calls brk)
                  = OFF)"
  using assms
proof (induction calls arbitrary: brk)
  case Nil
  then show ?case by simp
next
  case (Cons call calls)
  obtain rand c where call: "call = (rand, c)"
    by (cases call) auto
  show ?case
    using Cons.IH [OF CheckCollision_keeps_invariant [OF Cons.prems, of rand c]]
    by (simp add: call)
qed

text \<open>
  C9. A constructed brick satisfies: health is not negative, and health at most 0 implies
  the brick is off. \<open>CheckCollision\<close> preserves this; it either leaves the brick as it
  is, or the brick was on with positive health, loses exactly one point and is switched
  off in that same call if the new health is at most 0. Hence the predicate holds after
  any sequence of collision checks on a constructed brick.
\<close>

theorem Brick_health_invariant:
  "(0 \<le> Brick.health (Brick_ctor bt xx yy ww rr gg bb)
     \<and> (Brick.health (Brick_ctor bt xx yy ww rr gg bb) \<le> 0
          \<longrightarrow> Brick.onoff (Brick_ctor bt xx yy ww rr gg bb) = OFF))
   \<and> (0 \<le> Brick.health brk \<and> (Brick.health brk \<le> 0 \<longrightarrow> Brick.onoff brk = OFF)
        \<longrightarrow> 0 \<le> Brick.health (snd (CheckCollision rand c brk))
          \<and> (Brick.health (snd (CheckCollision rand c brk)) \<le> 0
               \<longrightarrow> Brick.onoff (snd (CheckCollision rand c brk)) = OFF))
   \<and> (snd (CheckCollision rand c brk) = brk
        \<or> (Brick.onoff brk = ON \<and> 0 < Brick.health brk
             \<and> snd (CheckCollision rand c brk) =
                 brk\<lparr>Brick.health := Brick.health brk - 1,
                     Brick.onoff := (if Brick.health brk - 1 \<le> 0 then OFF else ON)\<rparr>))
   \<and> (0 \<le> Brick.health
              (fold (\<lambda>(rand, c) b. snd (CheckCollision rand c b)) calls
                 (Brick_ctor bt xx yy ww rr gg bb))
        \<and> (Brick.health
              (fold (\<lambda>(rand, c) b. snd (CheckCollision rand c b)) calls
                 (Brick_ctor bt xx yy ww rr gg bb)) \<le> 0
             \<longrightarrow> Brick.onoff
                   (fold (\<lambda>(rand, c) b. snd (CheckCollision rand c b)) calls
                      (Brick_ctor bt xx yy ww rr gg bb)) = OFF))"
proof -
  have init: "0 \<le> Brick.health (Brick_ctor bt xx yy ww rr gg bb)
     \<and> (Brick.health (Brick_ctor bt xx yy ww rr gg bb) \<le> 0
          \<longrightarrow> Brick.onoff (Brick_ctor bt xx yy ww rr gg bb) = OFF)"
    by (simp add: Brick_ctor_def)
  have step: "0 \<le> Brick.health brk \<and> (Brick.health brk \<le> 0 \<longrightarrow> Brick.onoff brk = OFF)
        \<longrightarrow> 0 \<le> Brick.health (snd (CheckCollision rand c brk))
          \<and> (Brick.health (snd (CheckCollision rand c brk)) \<le> 0
               \<longrightarrow> Brick.onoff (snd (CheckCollision rand c brk)) = OFF)"
    using CheckCollision_keeps_invariant [of brk rand c] by blast
  have change: "snd (CheckCollision rand c brk) = brk
        \<or> (Brick.onoff brk = ON \<and> 0 < Brick.health brk
             \<and> snd (CheckCollision rand c brk) =
                 brk\<lparr>Brick.health := Brick.health brk - 1,
                     Brick.onoff := (if Brick.health brk - 1 \<le> 0 then OFF else ON)\<rparr>)"
    using CheckCollision_brick_cases [of rand c brk] by blast
  from init step change CheckCollision_fold_invariant [OF init, of calls]
  show ?thesis by blast
qed

lemma float32_half: "float32 (1 / 2) = 1 / 2"
  unfolding float32_def
  using round_binary_frac [of 2 "- 1" 1 24 "- 149" 24]
  by (simp add: power_int_minus)

lemma float32_minus_033: "float32 (- (33 / 100)) = - (11072963 / 33554432)"
  unfolding float32_def
  using round_binary_frac [of 100 "- 2" "- 33" 24 "- 149" 25]
  by (simp add: power_int_minus)

text \<open>C9 on a destructible brick with one point of health left, hit by a circle.\<close>

theorem Brick_health_invariant_witness:
  "snd (CheckCollision 3
      (Circle_ctor 0.5 (- 0.33) 2 3 0.03 1 0 0)
      ((Brick_ctor DESTRUCTABLE 0.5 (- 0.33) 0.2 1 1 0)\<lparr>Brick.health := 1\<rparr>))
    = (Brick_ctor DESTRUCTABLE 0.5 (- 0.33) 0.2 1 1 0)\<lparr>Brick.health := 0, Brick.onoff := OFF\<rparr>
   \<and> 0 \<le> Brick.health (snd (CheckCollision 3
      (Circle_ctor 0.5 (- 0.33) 2 3 0.03 1 0 0)
      ((Brick_ctor DESTRUCTABLE 0.5 (- 0.33) 0.2 1 1 0)\<lparr>Brick.health := 1\<rparr>)))
   \<and> Brick.onoff (snd (CheckCollision 3
      (Circle_ctor 0.5 (- 0.33) 2 3 0.03 1 0 0)
      ((Brick_ctor DESTRUCTABLE 0.5 (- 0.33) 0.2 1 1 0)\<lparr>Brick.health := 1\<rparr>))) = OFF"
proof -
  let ?c = "Circle_ctor 0.5 (- 0.33) 2 3 0.03 1 0 0"
  let ?b = "(Brick_ctor DESTRUCTABLE 0.5 (- 0.33) 0.2 1 1 0)\<lparr>Brick.health := 1\<rparr>"
  have pre: "0 \<le> Brick.health ?b \<and> (Brick.health ?b \<le> 0 \<longrightarrow> Brick.onoff ?b = OFF)"
    by simp
  have run: "snd (CheckCollision 3 ?c ?b) =
      (Brick_ctor DESTRUCTABLE 0.5 (- 0.33) 0.2 1 1 0)\<lparr>Brick.health := 0, Brick.onoff := OFF\<rparr>"
    by (simp add: CheckCollision_def hits_def Brick_ctor_def Circle_ctor_def Let_def
        float32_half float32_minus_033)
  from Brick_health_invariant [of DESTRUCTABLE "0.5" "- 0.33" "0.2" 1 1 0 ?b 3 ?c "[]"] pre
  have "0 \<le> Brick.health (snd (CheckCollision 3 ?c ?b))
      \<and> (Brick.health (snd (CheckCollision 3 ?c ?b)) \<le> 0
           \<longrightarrow> Brick.onoff (snd (CheckCollision 3 ?c ?b)) = OFF)"
    by blast
  moreover have "Brick.health (snd (CheckCollision 3 ?c ?b)) \<le> 0"
    unfolding run by simp
  ultimately show ?thesis
    using run by simp
qed

subsection \<open>Circle movement\<close>

lemma float32_add_ge:
  assumes "float32 a = a" and "0 \<le> s"
  shows "a \<le> float32 (a + s)"
  using float32_mono [of a "a + s"] assms by simp

lemma float32_sub_le:
  assumes "float32 a = a" and "0 \<le> s"
  shows "float32 (a - s) \<le> a"
  using float32_mono [of "a - s" a] assms by simp

lemma MoveUp_effect:
  "radius (MoveUp r c) = radius c \<and> speed (MoveUp r c) = speed c \<and> x (MoveUp r c) = x c
   \<and> (y (MoveUp r c) = y c
        \<or> (float32 (- 1 + radius c) < y c \<and> y (MoveUp r c) = float32 (y c - speed c)))"
  by (simp add: MoveUp_def)

lemma MoveDown_effect:
  "radius (MoveDown r c) = radius c \<and> speed (MoveDown r c) = speed c \<and> x (MoveDown r c) = x c
   \<and> (y (MoveDown r c) = y c
        \<or> (y c < float32 (1 - radius c) \<and> y (MoveDown r c) = float32 (y c + speed c)))"
  by (simp add: MoveDown_def)

lemma MoveRight_effect:
  "radius (MoveRight r c) = radius c \<and> speed (MoveRight r c) = speed c \<and> y (MoveRight r c) = y c
   \<and> (x (MoveRight r c) = x c
        \<or> (x c < float32 (1 - radius c) \<and> x (MoveRight r c) = float32 (x c + speed c)))"
  by (simp add: MoveRight_def)

lemma MoveLeft_effect:
  "radius (MoveLeft r c) = radius c \<and> speed (MoveLeft r c) = speed c \<and> y (MoveLeft r c) = y c
   \<and> (x (MoveLeft r c) = x c
        \<or> (float32 (- 1 + radius c) < x c \<and> x (MoveLeft r c) = float32 (x c - speed c)))"
  by (simp add: MoveLeft_def)

lemma MoveOneStep_x:
  "x (MoveOneStep r1 r2 r3 r4 c) = x c
   \<or> (x c < float32 (1 - radius c) \<and> x (MoveOneStep r1 r2 r3 r4 c) = float32 (x c + speed c))
   \<or> (float32 (- 1 + radius c) < x c
        \<and> x (MoveOneStep r1 r2 r3 r4 c) = float32 (x c - speed c))
   \<or> (x c < float32 (1 - radius c) \<and> float32 (- 1 + radius c) < float32 (x c + speed c)
        \<and> x (MoveOneStep r1 r2 r3 r4 c) = float32 (float32 (x c + speed c) - speed c))"
proof -
  let ?c1 = "MoveUp r1 c"
  let ?c2 = "MoveRight r2 ?c1"
  let ?c3 = "MoveDown r3 ?c2"
  have c1: "radius ?c1 = radius c" "speed ?c1 = speed c" "x ?c1 = x c"
    by (simp_all add: MoveUp_effect)
  have c2: "radius ?c2 = radius c" "speed ?c2 = speed c"
    by (simp_all add: MoveRight_effect c1)
  have right: "x ?c2 = x c
      \<or> (x c < float32 (1 - radius c) \<and> x ?c2 = float32 (x c + speed c))"
    using MoveRight_effect [of r2 ?c1] by (simp add: c1)
  have c3: "radius ?c3 = radius c" "speed ?c3 = speed c" "x ?c3 = x ?c2"
    by (simp_all add: MoveDown_effect c2)
  have left: "x (MoveLeft r4 ?c3) = x ?c2
      \<or> (float32 (- 1 + radius c) < x ?c2 \<and> x (MoveLeft r4 ?c3) = float32 (x ?c2 - speed c))"
    using MoveLeft_effect [of r4 ?c3] by (simp add: c3)
  from right left show ?thesis
    unfolding MoveOneStep_def by (elim disjE conjE) simp_all
qed

lemma MoveOneStep_y:
  "y (MoveOneStep r1 r2 r3 r4 c) = y c
   \<or> (float32 (- 1 + radius c) < y c
        \<and> y (MoveOneStep r1 r2 r3 r4 c) = float32 (y c - speed c))
   \<or> (y c < float32 (1 - radius c) \<and> y (MoveOneStep r1 r2 r3 r4 c) = float32 (y c + speed c))
   \<or> (float32 (- 1 + radius c) < y c \<and> float32 (y c - speed c) < float32 (1 - radius c)
        \<and> y (MoveOneStep r1 r2 r3 r4 c) = float32 (float32 (y c - speed c) + speed c))"
proof -
  let ?c1 = "MoveUp r1 c"
  let ?c2 = "MoveRight r2 ?c1"
  let ?c3 = "MoveDown r3 ?c2"
  have c1: "radius ?c1 = radius c" "speed ?c1 = speed c"
    by (simp_all add: MoveUp_effect)
  have up: "y ?c1 = y c
      \<or> (float32 (- 1 + radius c) < y c \<and> y ?c1 = float32 (y c - speed c))"
    using MoveUp_effect [of r1 c] by simp
  have c2: "radius ?c2 = radius c" "speed ?c2 = speed c" "y ?c2 = y ?c1"
    by (simp_all add: MoveRight_effect c1)
  have down: "y ?c3 = y ?c1
      \<or> (y ?c1 < float32 (1 - radius c) \<and> y ?c3 = float32 (y ?c1 + speed c))"
    using MoveDown_effect [of r3 ?c2] by (simp add: c2)
  have c4: "y (MoveLeft r4 ?c3) = y ?c3"
    by (simp add: MoveLeft_effect)
  from up down show ?thesis
    unfolding MoveOneStep_def c4 by (elim disjE conjE) simp_all
qed

lemma MoveOneStep_fixed:
  "radius (MoveOneStep r1 r2 r3 r4 c) = radius c \<and> speed (MoveOneStep r1 r2 r3 r4 c) = speed c"
  by (simp add: MoveOneStep_def MoveUp_effect MoveRight_effect MoveDown_effect MoveLeft_effect)

text \<open>One coordinate: incremented from below the right edge, then decremented from above the left.\<close>

lemma step_up_then_down:
  assumes s: "0 \<le> s" and a: "float32 a = a"
    and lo: "float32 (L - s) \<le> a" and hi: "a \<le> float32 (R + s)"
    and cases: "a' = a \<or> (a < R \<and> a' = float32 (a + s)) \<or> (L < a \<and> a' = float32 (a - s))
        \<or> (a < R \<and> L < float32 (a + s) \<and> a' = float32 (float32 (a + s) - s))"
  shows "float32 a' = a' \<and> float32 (L - s) \<le> a' \<and> a' \<le> float32 (R + s)
       \<and> float32 (a - s) \<le> a' \<and> a' \<le> float32 (a + s)"
proof -
  have up: "a \<le> float32 (a + s)" by (rule float32_add_ge [OF a s])
  have down: "float32 (a - s) \<le> a" by (rule float32_sub_le [OF a s])
  from cases show ?thesis
  proof (elim disjE conjE)
    assume "a' = a"
    with a lo hi up down show ?thesis by simp
  next
    assume "a < R" and a': "a' = float32 (a + s)"
    then have "float32 (a + s) \<le> float32 (R + s)"
      by (intro float32_mono) simp
    with a' lo up down show ?thesis
      by (simp add: float32_idem)
  next
    assume "L < a" and a': "a' = float32 (a - s)"
    then have "float32 (L - s) \<le> float32 (a - s)"
      by (intro float32_mono) simp
    with a' hi up down show ?thesis
      by (simp add: float32_idem)
  next
    let ?b = "float32 (a + s)"
    assume aR: "a < R" and Lb: "L < ?b" and a': "a' = float32 (?b - s)"
    have b: "float32 ?b = ?b" by (rule float32_idem)
    have b_hi: "?b \<le> float32 (R + s)"
      using aR by (intro float32_mono) simp
    have "float32 (?b - s) \<le> ?b" by (rule float32_sub_le [OF b s])
    moreover have "float32 (L - s) \<le> float32 (?b - s)"
      using Lb by (intro float32_mono) simp
    moreover have "float32 (a - s) \<le> float32 (?b - s)"
      using up by (intro float32_mono) simp
    ultimately show ?thesis
      using a' b_hi by (simp add: float32_idem)
  qed
qed

lemma step_down_then_up:
  assumes s: "0 \<le> s" and a: "float32 a = a"
    and lo: "float32 (L - s) \<le> a" and hi: "a \<le> float32 (R + s)"
    and cases: "a' = a \<or> (L < a \<and> a' = float32 (a - s)) \<or> (a < R \<and> a' = float32 (a + s))
        \<or> (L < a \<and> float32 (a - s) < R \<and> a' = float32 (float32 (a - s) + s))"
  shows "float32 a' = a' \<and> float32 (L - s) \<le> a' \<and> a' \<le> float32 (R + s)
       \<and> float32 (a - s) \<le> a' \<and> a' \<le> float32 (a + s)"
proof -
  have up: "a \<le> float32 (a + s)" by (rule float32_add_ge [OF a s])
  have down: "float32 (a - s) \<le> a" by (rule float32_sub_le [OF a s])
  from cases show ?thesis
  proof (elim disjE conjE)
    assume "a' = a"
    with a lo hi up down show ?thesis by simp
  next
    assume "L < a" and a': "a' = float32 (a - s)"
    then have "float32 (L - s) \<le> float32 (a - s)"
      by (intro float32_mono) simp
    with a' hi up down show ?thesis
      by (simp add: float32_idem)
  next
    assume "a < R" and a': "a' = float32 (a + s)"
    then have "float32 (a + s) \<le> float32 (R + s)"
      by (intro float32_mono) simp
    with a' lo up down show ?thesis
      by (simp add: float32_idem)
  next
    let ?b = "float32 (a - s)"
    assume La: "L < a" and bR: "?b < R" and a': "a' = float32 (?b + s)"
    have b: "float32 ?b = ?b" by (rule float32_idem)
    have b_lo: "float32 (L - s) \<le> ?b"
      using La by (intro float32_mono) simp
    have "?b \<le> float32 (?b + s)" by (rule float32_add_ge [OF b s])
    moreover have "float32 (?b + s) \<le> float32 (R + s)"
      using bR by (intro float32_mono) simp
    moreover have "float32 (?b + s) \<le> float32 (a + s)"
      using down by (intro float32_mono) simp
    ultimately show ?thesis
      using a' b_lo by (simp add: float32_idem)
  qed
qed

text \<open>The binary32 values that the examples below pass through.\<close>

lemma float32_speed: "float32 (float64 0.01) = 5368709 / 536870912"
proof -
  have a: "float64 0.01 = 5764607523034235 / 2 ^ 59"
    unfolding float64_def
    using round_binary_frac [of 100 "- 7" 1 53 "- 1074" 59]
    by (simp add: power_int_minus)
  have b: "float32 (5764607523034235 / 2 ^ 59) = 5368709 / 536870912"
    unfolding float32_def
    using round_binary_frac [of "2 ^ 59" "- 7" 5764607523034235 24 "- 149" 30]
    by (simp add: power_int_minus)
  show ?thesis by (simp only: a b)
qed

lemma float32_radius: "float32 (float64 0.03) = 16106127 / 536870912"
proof -
  have a: "float64 0.03 = 8646911284551352 / 2 ^ 58"
    unfolding float64_def
    using round_binary_frac [of 100 "- 6" 3 53 "- 1074" 58]
    by (simp add: power_int_minus)
  have b: "float32 (8646911284551352 / 2 ^ 58) = 16106127 / 536870912"
    unfolding float32_def
    using round_binary_frac [of "2 ^ 58" "- 6" 8646911284551352 24 "- 149" 29]
    by (simp add: power_int_minus)
  show ?thesis by (simp only: a b)
qed

lemma float32_launch_y: "float32 (float64 (- 0.8)) = - (13421773 / 16777216)"
proof -
  have a: "float64 (- 0.8) = - (7205759403792794 / 2 ^ 53)"
    unfolding float64_def
    using round_binary_frac [of 10 "- 1" "- 8" 53 "- 1074" 53]
    by (simp add: power_int_minus)
  have b: "float32 (- (7205759403792794 / 2 ^ 53)) = - (13421773 / 16777216)"
    unfolding float32_def
    using round_binary_frac [of "2 ^ 53" "- 1" "- 7205759403792794" 24 "- 149" 24]
    by (simp add: power_int_minus)
  show ?thesis by (simp only: a b)
qed

lemma float32_zero: "float32 0 = 0"
  by (simp add: float32_def round_binary_def)

lemma float32_minus_quarter: "float32 (- (1 / 4)) = - (1 / 4)"
  unfolding float32_def
  using round_binary_frac [of 4 "- 2" "- 1" 24 "- 149" 25]
  by (simp add: power_int_minus)

lemma float32_right_edge: "float32 (1 - 16106127 / 536870912) = 4068475 / 4194304"
  unfolding float32_def
  using round_binary_frac [of "2 ^ 29" "- 1" 520764785 24 "- 149" 24]
  by (simp add: power_int_minus)

lemma float32_left_edge: "float32 (- 1 + 16106127 / 536870912) = - (4068475 / 4194304)"
  unfolding float32_def
  using round_binary_frac [of "2 ^ 29" "- 1" "- 520764785" 24 "- 149" 24]
  by (simp add: power_int_minus)

lemma float32_upper_bound: "float32 (4068475 / 4194304 + 5368709 / 536870912) = 2055209 / 2097152"
  unfolding float32_def
  using round_binary_frac [of "2 ^ 29" "- 1" 526133509 24 "- 149" 24]
  by (simp add: power_int_minus)

lemma float32_lower_bound:
  "float32 (- (4068475 / 4194304) - 5368709 / 536870912) = - (2055209 / 2097152)"
  unfolding float32_def
  using round_binary_frac [of "2 ^ 29" "- 1" "- 526133509" 24 "- 149" 24]
  by (simp add: power_int_minus)

lemma float32_quarter_step:
  "float32 (- (1 / 4) + 5368709 / 536870912) = - (16106127 / 67108864)"
  unfolding float32_def
  using round_binary_frac [of "2 ^ 29" "- 3" "- 128849019" 24 "- 149" 26]
  by (simp add: power_int_minus)

lemma float32_launch_step:
  "float32 (- (13421773 / 16777216) + 5368709 / 536870912) = - (13254001 / 16777216)"
  unfolding float32_def
  using round_binary_frac [of "2 ^ 29" "- 1" "- 424128027" 24 "- 149" 24]
  by (simp add: power_int_minus)

lemma float32_near_edge: "float32 (16654117 / 16777216) = 16654117 / 16777216"
  unfolding float32_def
  using round_binary_frac [of "2 ^ 24" "- 1" 16654117 24 "- 149" 24]
  by (simp add: power_int_minus)

lemma float32_small_radius_edge: "float32 (1 - 246197 / 33554432) = 8327059 / 8388608"
  unfolding float32_def
  using round_binary_frac [of "2 ^ 25" "- 1" 33308235 24 "- 149" 24]
  by (simp add: power_int_minus)

lemma float32_near_edge_step:
  "float32 (16654117 / 16777216 + 5368709 / 536870912) = 8410945 / 8388608"
  unfolding float32_def
  using round_binary_frac [of "2 ^ 29" 0 538300453 24 "- 149" 23]
  by (simp add: power_int_minus)

lemma Circle_ctor_fields:
  "radius (Circle_ctor xx yy rr dir rad r g b) = rad"
  "speed (Circle_ctor xx yy rr dir rad r g b) = float32 (float64 0.01)"
  "x (Circle_ctor xx yy rr dir rad r g b) = float32 xx"
  "y (Circle_ctor xx yy rr dir rad r g b) = float32 yy"
  "direction (Circle_ctor xx yy rr dir rad r g b) = dir"
  by (simp_all add: Circle_ctor_def)

lemma MoveOneStep_right_only:
  assumes "direction c = 2" and "x c < float32 (1 - radius c)"
  shows "MoveOneStep r1 r2 r3 r4 c = c\<lparr>x := float32 (x c + speed c)\<rparr>"
  using assms by (simp add: MoveOneStep_def MoveUp_def MoveRight_def MoveDown_def MoveLeft_def)

lemma MoveOneStep_down_only:
  assumes "direction c = 3" and "y c < float32 (1 - radius c)"
  shows "MoveOneStep r1 r2 r3 r4 c = c\<lparr>y := float32 (y c + speed c)\<rparr>"
  using assms by (simp add: MoveOneStep_def MoveUp_def MoveRight_def MoveDown_def MoveLeft_def)

lemma MoveOneStep_invariant:
  assumes s: "0 \<le> speed c"
    and fx: "float32 (x c) = x c" and fy: "float32 (y c) = y c"
    and xlo: "float32 (float32 (- 1 + radius c) - speed c) \<le> x c"
    and xhi: "x c \<le> float32 (float32 (1 - radius c) + speed c)"
    and ylo: "float32 (float32 (- 1 + radius c) - speed c) \<le> y c"
    and yhi: "y c \<le> float32 (float32 (1 - radius c) + speed c)"
  shows "float32 (x (MoveOneStep r1 r2 r3 r4 c)) = x (MoveOneStep r1 r2 r3 r4 c)
       \<and> float32 (float32 (- 1 + radius c) - speed c) \<le> x (MoveOneStep r1 r2 r3 r4 c)
       \<and> x (MoveOneStep r1 r2 r3 r4 c) \<le> float32 (float32 (1 - radius c) + speed c)
       \<and> float32 (x c - speed c) \<le> x (MoveOneStep r1 r2 r3 r4 c)
       \<and> x (MoveOneStep r1 r2 r3 r4 c) \<le> float32 (x c + speed c)"
    and "float32 (y (MoveOneStep r1 r2 r3 r4 c)) = y (MoveOneStep r1 r2 r3 r4 c)
       \<and> float32 (float32 (- 1 + radius c) - speed c) \<le> y (MoveOneStep r1 r2 r3 r4 c)
       \<and> y (MoveOneStep r1 r2 r3 r4 c) \<le> float32 (float32 (1 - radius c) + speed c)
       \<and> float32 (y c - speed c) \<le> y (MoveOneStep r1 r2 r3 r4 c)
       \<and> y (MoveOneStep r1 r2 r3 r4 c) \<le> float32 (y c + speed c)"
  using step_up_then_down [OF s fx xlo xhi MoveOneStep_x [of r1 r2 r3 r4 c]]
    step_down_then_up [OF s fy ylo yhi MoveOneStep_y [of r1 r2 r3 r4 c]]
  by blast+

lemma MoveOneStep_fold_invariant:
  assumes "0 \<le> speed c"
    and "float32 (x c) = x c" and "float32 (y c) = y c"
    and "float32 (float32 (- 1 + radius c) - speed c) \<le> x c"
    and "x c \<le> float32 (float32 (1 - radius c) + speed c)"
    and "float32 (float32 (- 1 + radius c) - speed c) \<le> y c"
    and "y c \<le> float32 (float32 (1 - radius c) + speed c)"
  shows "float32 (float32 (- 1 + radius c) - speed c)
           \<le> x (fold (\<lambda>(r1, r2, r3, r4). MoveOneStep r1 r2 r3 r4) rs c)
       \<and> x (fold (\<lambda>(r1, r2, r3, r4). MoveOneStep r1 r2 r3 r4) rs c)
           \<le> float32 (float32 (1 - radius c) + speed c)
       \<and> float32 (float32 (- 1 + radius c) - speed c)
           \<le> y (fold (\<lambda>(r1, r2, r3, r4). MoveOneStep r1 r2 r3 r4) rs c)
       \<and> y (fold (\<lambda>(r1, r2, r3, r4). MoveOneStep r1 r2 r3 r4) rs c)
           \<le> float32 (float32 (1 - radius c) + speed c)"
  using assms
proof (induction rs arbitrary: c)
  case Nil
  then show ?case by simp
next
  case (Cons r rs)
  obtain r1 r2 r3 r4 where r: "r = (r1, r2, r3, r4)"
    by (cases r) auto
  let ?c' = "MoveOneStep r1 r2 r3 r4 c"
  have same: "radius ?c' = radius c" "speed ?c' = speed c"
    by (simp_all add: MoveOneStep_fixed)
  note inv = MoveOneStep_invariant [OF Cons.prems, of r1 r2 r3 r4]
  have "float32 (float32 (- 1 + radius ?c') - speed ?c')
           \<le> x (fold (\<lambda>(r1, r2, r3, r4). MoveOneStep r1 r2 r3 r4) rs ?c')
       \<and> x (fold (\<lambda>(r1, r2, r3, r4). MoveOneStep r1 r2 r3 r4) rs ?c')
           \<le> float32 (float32 (1 - radius ?c') + speed ?c')
       \<and> float32 (float32 (- 1 + radius ?c') - speed ?c')
           \<le> y (fold (\<lambda>(r1, r2, r3, r4). MoveOneStep r1 r2 r3 r4) rs ?c')
       \<and> y (fold (\<lambda>(r1, r2, r3, r4). MoveOneStep r1 r2 r3 r4) rs ?c')
           \<le> float32 (float32 (1 - radius ?c') + speed ?c')"
    using inv Cons.prems(1) by (intro Cons.IH) (simp_all add: same)
  then show ?case
    by (simp add: r same)
qed

text \<open>
  C10, as the claim states it, with the window and the step in exact arithmetic. A circle
  built with radius 0.03f at \<open>x = -0.25\<close>, moving right, satisfies the claim's bounds, and
  its step is \<open>671089 / 67108864\<close>, more than its speed. A circle of radius
  \<open>246197 / 33554432\<close> at \<open>x = 16654117 / 16777216\<close> satisfies them too, and its new
  \<open>x\<close> is beyond \<open>1 - radius + speed\<close>.
\<close>

theorem MoveOneStep_exact_window_counterexample:
  "(let c = Circle_ctor (- 0.25) 0 2 2 (float32 (float64 0.03)) 1 0 0;
        c' = MoveOneStep 0 0 0 0 c
    in 0 < radius c \<and> radius c < 1
       \<and> - 1 + radius c - speed c \<le> x c \<and> x c \<le> 1 - radius c + speed c
       \<and> - 1 + radius c - speed c \<le> y c \<and> y c \<le> 1 - radius c + speed c
       \<and> x c = - (1 / 4) \<and> speed c = 5368709 / 536870912
       \<and> x c' = - (16106127 / 67108864)
       \<and> \<not> \<bar>x c' - x c\<bar> \<le> speed c)
   \<and> (let d = Circle_ctor (16654117 / 16777216) 0 2 2 (246197 / 33554432) 1 0 0;
            d' = MoveOneStep 0 0 0 0 d
        in 0 < radius d \<and> radius d < 1
           \<and> - 1 + radius d - speed d \<le> x d \<and> x d \<le> 1 - radius d + speed d
           \<and> - 1 + radius d - speed d \<le> y d \<and> y d \<le> 1 - radius d + speed d
           \<and> x d' = 8410945 / 8388608
           \<and> \<not> x d' \<le> 1 - radius d + speed d)"
proof -
  let ?c = "Circle_ctor (- 0.25) 0 2 2 (float32 (float64 0.03)) 1 0 0"
  have c: "radius ?c = 16106127 / 536870912" "speed ?c = 5368709 / 536870912"
    "x ?c = - (1 / 4)" "y ?c = 0" "direction ?c = 2"
    unfolding Circle_ctor_fields float32_radius float32_speed float32_zero
    using float32_minus_quarter by simp_all
  have "x ?c < float32 (1 - radius ?c)"
    unfolding c float32_right_edge by simp
  then have "MoveOneStep 0 0 0 0 ?c = ?c\<lparr>x := float32 (x ?c + speed ?c)\<rparr>"
    by (rule MoveOneStep_right_only [OF c(5)])
  then have c': "x (MoveOneStep 0 0 0 0 ?c) = - (16106127 / 67108864)"
    unfolding c float32_quarter_step by simp
  have first: "0 < radius ?c \<and> radius ?c < 1
       \<and> - 1 + radius ?c - speed ?c \<le> x ?c \<and> x ?c \<le> 1 - radius ?c + speed ?c
       \<and> - 1 + radius ?c - speed ?c \<le> y ?c \<and> y ?c \<le> 1 - radius ?c + speed ?c
       \<and> x ?c = - (1 / 4) \<and> speed ?c = 5368709 / 536870912
       \<and> x (MoveOneStep 0 0 0 0 ?c) = - (16106127 / 67108864)
       \<and> \<not> \<bar>x (MoveOneStep 0 0 0 0 ?c) - x ?c\<bar> \<le> speed ?c"
    unfolding c' c by simp
  let ?d = "Circle_ctor (16654117 / 16777216) 0 2 2 (246197 / 33554432) 1 0 0"
  have d: "radius ?d = 246197 / 33554432" "speed ?d = 5368709 / 536870912"
    "x ?d = 16654117 / 16777216" "y ?d = 0" "direction ?d = 2"
    unfolding Circle_ctor_fields float32_speed float32_zero float32_near_edge
    by simp_all
  have "x ?d < float32 (1 - radius ?d)"
    unfolding d float32_small_radius_edge by simp
  then have "MoveOneStep 0 0 0 0 ?d = ?d\<lparr>x := float32 (x ?d + speed ?d)\<rparr>"
    by (rule MoveOneStep_right_only [OF d(5)])
  then have d': "x (MoveOneStep 0 0 0 0 ?d) = 8410945 / 8388608"
    unfolding d float32_near_edge_step by simp
  have second: "0 < radius ?d \<and> radius ?d < 1
           \<and> - 1 + radius ?d - speed ?d \<le> x ?d \<and> x ?d \<le> 1 - radius ?d + speed ?d
           \<and> - 1 + radius ?d - speed ?d \<le> y ?d \<and> y ?d \<le> 1 - radius ?d + speed ?d
           \<and> x (MoveOneStep 0 0 0 0 ?d) = 8410945 / 8388608
           \<and> \<not> x (MoveOneStep 0 0 0 0 ?d) \<le> 1 - radius ?d + speed ?d"
    unfolding d' d by simp
  from first second show ?thesis
    unfolding Let_def by (rule conjI)
qed

text \<open>
  C10, amended. Let the circle's coordinates be binary32 values, \<open>0 < radius < 1\<close>, the
  speed the constructor's 0.01f, and both coordinates between
  \<open>float32 (float32 (-1 + radius) - speed)\<close> and \<open>float32 (float32 (1 - radius) + speed)\<close>,
  the window edges evaluated as the code evaluates them. Then \<open>MoveOneStep\<close> keeps them
  there, leaves radius and speed alone, and each coordinate ends between the rounded
  \<open>x - speed\<close> and the rounded \<open>x + speed\<close>; every step it takes starts strictly inside
  the rounded edge it moves towards. Hence any number of calls keeps the bounds.
\<close>

theorem MoveOneStep_stays_in_rounded_window:
  assumes "0 < radius c" and "radius c < 1"
    and "speed c = float32 (float64 0.01)"
    and "float32 (x c) = x c" and "float32 (y c) = y c"
    and "float32 (float32 (- 1 + radius c) - speed c) \<le> x c"
    and "x c \<le> float32 (float32 (1 - radius c) + speed c)"
    and "float32 (float32 (- 1 + radius c) - speed c) \<le> y c"
    and "y c \<le> float32 (float32 (1 - radius c) + speed c)"
  shows "radius (MoveOneStep r1 r2 r3 r4 c) = radius c
       \<and> speed (MoveOneStep r1 r2 r3 r4 c) = speed c
       \<and> float32 (x (MoveOneStep r1 r2 r3 r4 c)) = x (MoveOneStep r1 r2 r3 r4 c)
       \<and> float32 (y (MoveOneStep r1 r2 r3 r4 c)) = y (MoveOneStep r1 r2 r3 r4 c)
       \<and> float32 (float32 (- 1 + radius c) - speed c) \<le> x (MoveOneStep r1 r2 r3 r4 c)
       \<and> x (MoveOneStep r1 r2 r3 r4 c) \<le> float32 (float32 (1 - radius c) + speed c)
       \<and> float32 (float32 (- 1 + radius c) - speed c) \<le> y (MoveOneStep r1 r2 r3 r4 c)
       \<and> y (MoveOneStep r1 r2 r3 r4 c) \<le> float32 (float32 (1 - radius c) + speed c)
       \<and> float32 (x c - speed c) \<le> x (MoveOneStep r1 r2 r3 r4 c)
       \<and> x (MoveOneStep r1 r2 r3 r4 c) \<le> float32 (x c + speed c)
       \<and> float32 (y c - speed c) \<le> y (MoveOneStep r1 r2 r3 r4 c)
       \<and> y (MoveOneStep r1 r2 r3 r4 c) \<le> float32 (y c + speed c)
       \<and> (x (MoveOneStep r1 r2 r3 r4 c) = x c
            \<or> (x c < float32 (1 - radius c)
                 \<and> x (MoveOneStep r1 r2 r3 r4 c) = float32 (x c + speed c))
            \<or> (float32 (- 1 + radius c) < x c
                 \<and> x (MoveOneStep r1 r2 r3 r4 c) = float32 (x c - speed c))
            \<or> (x c < float32 (1 - radius c)
                 \<and> float32 (- 1 + radius c) < float32 (x c + speed c)
                 \<and> x (MoveOneStep r1 r2 r3 r4 c) = float32 (float32 (x c + speed c) - speed c)))
       \<and> (y (MoveOneStep r1 r2 r3 r4 c) = y c
            \<or> (float32 (- 1 + radius c) < y c
                 \<and> y (MoveOneStep r1 r2 r3 r4 c) = float32 (y c - speed c))
            \<or> (y c < float32 (1 - radius c)
                 \<and> y (MoveOneStep r1 r2 r3 r4 c) = float32 (y c + speed c))
            \<or> (float32 (- 1 + radius c) < y c
                 \<and> float32 (y c - speed c) < float32 (1 - radius c)
                 \<and> y (MoveOneStep r1 r2 r3 r4 c) = float32 (float32 (y c - speed c) + speed c)))
       \<and> float32 (float32 (- 1 + radius c) - speed c)
           \<le> x (fold (\<lambda>(r1, r2, r3, r4). MoveOneStep r1 r2 r3 r4) rs c)
       \<and> x (fold (\<lambda>(r1, r2, r3, r4). MoveOneStep r1 r2 r3 r4) rs c)
           \<le> float32 (float32 (1 - radius c) + speed c)
       \<and> float32 (float32 (- 1 + radius c) - speed c)
           \<le> y (fold (\<lambda>(r1, r2, r3, r4). MoveOneStep r1 r2 r3 r4) rs c)
       \<and> y (fold (\<lambda>(r1, r2, r3, r4). MoveOneStep r1 r2 r3 r4) rs c)
           \<le> float32 (float32 (1 - radius c) + speed c)"
proof -
  have s: "0 \<le> speed c"
    unfolding assms(3) float32_speed by simp
  note inv = MoveOneStep_invariant [OF s assms(4-9), of r1 r2 r3 r4]
  note rep = MoveOneStep_fold_invariant [OF s assms(4-9), of rs]
  note fx = MoveOneStep_x [of r1 r2 r3 r4 c]
  note fy = MoveOneStep_y [of r1 r2 r3 r4 c]
  note same = MoveOneStep_fixed [of r1 r2 r3 r4 c]
  from same inv fx fy rep show ?thesis
    by (intro conjI) (elim conjE, assumption)+
qed

text \<open>C10 on the circle that the space bar launches: it moves down by one rounded step.\<close>

theorem MoveOneStep_stays_in_rounded_window_witness:
  "x (MoveOneStep 0 0 0 0 (Circle_ctor 0 (float64 (- 0.8)) 2 3 (float32 (float64 0.03)) 1 0 0))
     = 0
   \<and> y (MoveOneStep 0 0 0 0 (Circle_ctor 0 (float64 (- 0.8)) 2 3 (float32 (float64 0.03)) 1 0 0))
     = - (13254001 / 16777216)
   \<and> - (2055209 / 2097152)
       \<le> y (MoveOneStep 0 0 0 0
              (Circle_ctor 0 (float64 (- 0.8)) 2 3 (float32 (float64 0.03)) 1 0 0))
   \<and> y (MoveOneStep 0 0 0 0 (Circle_ctor 0 (float64 (- 0.8)) 2 3 (float32 (float64 0.03)) 1 0 0))
       \<le> 2055209 / 2097152
   \<and> float32 (y (MoveOneStep 0 0 0 0
         (Circle_ctor 0 (float64 (- 0.8)) 2 3 (float32 (float64 0.03)) 1 0 0)))
     = y (MoveOneStep 0 0 0 0 (Circle_ctor 0 (float64 (- 0.8)) 2 3 (float32 (float64 0.03)) 1 0 0))"
proof -
  let ?c = "Circle_ctor 0 (float64 (- 0.8)) 2 3 (float32 (float64 0.03)) 1 0 0"
  have c: "radius ?c = 16106127 / 536870912" "speed ?c = 5368709 / 536870912"
    "x ?c = 0" "y ?c = - (13421773 / 16777216)" "direction ?c = 3"
    unfolding Circle_ctor_fields float32_radius float32_speed float32_zero float32_launch_y
    by simp_all
  have lo: "float32 (float32 (- 1 + radius ?c) - speed ?c) = - (2055209 / 2097152)"
    unfolding c float32_left_edge float32_lower_bound by (rule refl)
  have hi: "float32 (float32 (1 - radius ?c) + speed ?c) = 2055209 / 2097152"
    unfolding c float32_right_edge float32_upper_bound by (rule refl)
  have rad: "0 < radius ?c" "radius ?c < 1"
    unfolding c by simp_all
  have spd: "speed ?c = float32 (float64 0.01)"
    by (rule Circle_ctor_fields)
  have flt: "float32 (x ?c) = x ?c" "float32 (y ?c) = y ?c"
    unfolding Circle_ctor_fields by (rule float32_idem)+
  have bnd: "float32 (float32 (- 1 + radius ?c) - speed ?c) \<le> x ?c"
    "x ?c \<le> float32 (float32 (1 - radius ?c) + speed ?c)"
    "float32 (float32 (- 1 + radius ?c) - speed ?c) \<le> y ?c"
    "y ?c \<le> float32 (float32 (1 - radius ?c) + speed ?c)"
    unfolding lo hi unfolding c by simp_all
  note pre = rad spd flt bnd
  have "y ?c < float32 (1 - radius ?c)"
    unfolding c float32_right_edge by simp
  then have step: "MoveOneStep 0 0 0 0 ?c = ?c\<lparr>y := float32 (y ?c + speed ?c)\<rparr>"
    by (rule MoveOneStep_down_only [OF c(5)])
  have xstep: "x (MoveOneStep 0 0 0 0 ?c) = x ?c"
    and ystep: "y (MoveOneStep 0 0 0 0 ?c) = float32 (y ?c + speed ?c)"
    unfolding step by simp_all
  have run: "x (MoveOneStep 0 0 0 0 ?c) = 0"
    "y (MoveOneStep 0 0 0 0 ?c) = - (13254001 / 16777216)"
    unfolding xstep ystep c float32_launch_step by (rule refl)+
  from MoveOneStep_stays_in_rounded_window [OF pre, of 0 0 0 0 "[]"] run
  show ?thesis
    unfolding lo hi by simp
qed

end
